theory Spec2Isabelle
  imports Main "HOL-Library.Word" "HOL-Library.Sublist"
begin

section \<open>SEEP: bytes, errors and the libraries the package drives\<close>

text \<open>
  The package \<^verbatim>\<open>seep\<close> drives three libraries that are not part of it: the frame
  transport (\<^verbatim>\<open>xdr.Encoder.EncodeOpaque\<close>, \<^verbatim>\<open>xdr.Decoder.DecodeOpaque\<close>), the noise
  library (\<^verbatim>\<open>HandshakeState\<close>, \<^verbatim>\<open>CipherState\<close>) and Go's \<^verbatim>\<open>bytes.Buffer\<close>.
  The buffer and the transport are modelled concretely; the noise library is a parameter
  (a record of its operations), so that a theorem about \<open>N\<close> holds for any handshake engine
  and any cipher. A small executable instance of it serves to run the model on concrete
  inputs.

  Go's \<^verbatim>\<open>int\<close> values that occur here are lengths and small counts, never negative and
  far below \<open>2^63\<close>; they are natural numbers in the model. A panic of the Go runtime is
  an error value of its own (\<open>PanicDivideByZero\<close>, \<open>PanicNilDereference\<close>).
\<close>

type_synonym byte = "8 word"
type_synonym bytes = "byte list"

datatype error =
    EOF
  | TransportError nat
  | NoiseError nat
  | CodecError nat
  | PanicDivideByZero
  | PanicNilDereference

subsection \<open>bytes.Buffer\<close>

text \<open>A buffer is its unread bytes. \<^verbatim>\<open>Read(p)\<close> is given \<open>len(p)\<close> and returns the bytes
  it copied into \<open>p\<close> (so \<open>n\<close> is their length); on an empty buffer it returns
  \<^verbatim>\<open>io.EOF\<close> unless \<open>len(p)\<close> is zero.\<close>

type_synonym Buffer = bytes

definition Buffer_Len :: "Buffer \<Rightarrow> nat" where
  "Buffer_Len b = length b"

definition Buffer_Write :: "Buffer \<Rightarrow> bytes \<Rightarrow> Buffer" where
  "Buffer_Write b p = b @ p"

definition Buffer_Read :: "Buffer \<Rightarrow> nat \<Rightarrow> (bytes \<times> error option) \<times> Buffer" where
  "Buffer_Read b lenp =
     (if b = [] then (if lenp = 0 then (([], None), []) else (([], Some EOF), []))
      else ((take lenp b, None), drop lenp b))"

definition Buffer_Next :: "Buffer \<Rightarrow> nat \<Rightarrow> bytes \<times> Buffer" where
  "Buffer_Next b n = (take n b, drop n b)"

text \<open>\<^verbatim>\<open>dst.ReadFrom(src)\<close> for a source that is itself a buffer: everything unread in
  \<open>src\<close> is appended to \<open>dst\<close> and \<open>src\<close> is left empty. The pair is the new
  \<open>(dst, src)\<close>.\<close>

definition Buffer_ReadFrom :: "Buffer \<Rightarrow> Buffer \<Rightarrow> Buffer \<times> Buffer" where
  "Buffer_ReadFrom dst src = (dst @ src, [])"

subsection \<open>The frame transport\<close>

text \<open>A decoder is the frames that successive \<^verbatim>\<open>DecodeOpaque\<close> calls will yield, and the
  error the underlying connection gives once they are used up. An encoder is the frames
  written so far; \<open>capacity\<close> is the number of further frames the underlying writer takes
  before it fails with \<open>failure\<close> (\<open>None\<close>: it never fails).\<close>

record Decoder =
  incoming :: "bytes list"
  closing :: error

record Encoder =
  sent :: "bytes list"
  capacity :: "nat option"
  failure :: error

definition DecodeOpaque :: "Decoder \<Rightarrow> (error + bytes) \<times> Decoder" where
  "DecodeOpaque d =
     (case incoming d of
        [] \<Rightarrow> (Inl (closing d), d)
      | f # fs \<Rightarrow> (Inr f, d\<lparr>incoming := fs\<rparr>))"

definition EncodeOpaque :: "Encoder \<Rightarrow> bytes \<Rightarrow> error option \<times> Encoder" where
  "EncodeOpaque e b =
     (case capacity e of
        None \<Rightarrow> (None, e\<lparr>sent := sent e @ [b]\<rparr>)
      | Some 0 \<Rightarrow> (Some (failure e), e)
      | Some (Suc k) \<Rightarrow> (None, e\<lparr>sent := sent e @ [b], capacity := Some k\<rparr>))"

subsection \<open>The noise library\<close>

text \<open>\<^verbatim>\<open>noise.Config\<close>: the two fields the package reads. A message pattern is a list of
  tokens; only the number of messages matters to the package.\<close>

datatype MessagePattern =
  MessagePatternS | MessagePatternE | MessagePatternDHEE | MessagePatternDHES
  | MessagePatternDHSE | MessagePatternDHSS

record Config =
  Initiator :: bool
  Pattern_Messages :: "MessagePattern list list"

text \<open>The operations of the library, over a handshake state \<open>'h\<close> and a cipher state
  \<open>'c\<close>. Each returns the state it leaves behind. A nil \<^verbatim>\<open>*CipherState\<close> is \<open>None\<close>.
  The two cipher results of \<open>WriteMessage\<close> and \<open>ReadMessage\<close> are kept in the order in
  which the library returns them. \<open>WriteMessage\<close> has no error result in Go; \<open>Inl\<close> is
  a panic of the library. \<open>ReadMessage\<close> returns nil cipher states with an error.\<close>

record ('h, 'c) noise =
  NewHandshakeState :: "Config \<Rightarrow> 'h"
  WriteMessage :: "'h \<Rightarrow> bytes \<Rightarrow> (error + bytes \<times> 'c option \<times> 'c option) \<times> 'h"
  ReadMessage :: "'h \<Rightarrow> bytes \<Rightarrow> (error + bytes \<times> 'c option \<times> 'c option) \<times> 'h"
  Encrypt :: "'c \<Rightarrow> bytes \<Rightarrow> bytes \<times> 'c"
  Decrypt :: "'c \<Rightarrow> bytes \<Rightarrow> (error + bytes) \<times> 'c"

section \<open>Reader and Writer\<close>

text \<open>The fields of \<^verbatim>\<open>Reader\<close> and \<^verbatim>\<open>Writer\<close>. The mutex \<open>lck\<close> is left out: the
  model is sequential, one call after the other.\<close>

record 'c Reader =
  src :: Decoder
  dec :: "'c option"
  buf :: Buffer

record 'c Writer =
  dst :: Encoder
  enc :: "'c option"

definition NewReader :: "Decoder \<Rightarrow> 'c option \<Rightarrow> 'c Reader" where
  "NewReader s d = \<lparr>src = s, dec = d, buf = []\<rparr>"

definition NewWriter :: "Encoder \<Rightarrow> 'c option \<Rightarrow> 'c Writer" where
  "NewWriter d e = \<lparr>dst = d, enc = e\<rparr>"

text \<open>\<^verbatim>\<open>Reader.Read(p)\<close>, given \<open>len(p)\<close>: the bytes copied into \<open>p\<close>, the error, and
  the reader afterwards.\<close>

definition Reader_Read ::
  "('h, 'c) noise \<Rightarrow> 'c Reader \<Rightarrow> nat \<Rightarrow> (bytes \<times> error option) \<times> 'c Reader" where
  "Reader_Read N r lenp =
     (if Buffer_Len (buf r) = 0 then
        (case DecodeOpaque (src r) of
           (Inl e, s') \<Rightarrow> (([], Some e), r\<lparr>src := s'\<rparr>)
         | (Inr b, s') \<Rightarrow>
             (case dec r of
                None \<Rightarrow> (([], Some PanicNilDereference), r\<lparr>src := s'\<rparr>)
              | Some d \<Rightarrow>
                  (case Decrypt N d b of
                     (Inl e, d') \<Rightarrow> (([], Some e), r\<lparr>src := s', dec := Some d'\<rparr>)
                   | (Inr pl, d') \<Rightarrow>
                       (let b' = Buffer_Write (buf r) pl;
                            (res, b'') = Buffer_Read b' lenp
                        in (res, r\<lparr>src := s', dec := Some d', buf := b''\<rparr>)))))
      else (let (res, b'') = Buffer_Read (buf r) lenp in (res, r\<lparr>buf := b''\<rparr>)))"

text \<open>\<^verbatim>\<open>Writer.Write(p)\<close>: \<open>n\<close>, the error, and the writer afterwards.\<close>

definition Writer_Write ::
  "('h, 'c) noise \<Rightarrow> 'c Writer \<Rightarrow> bytes \<Rightarrow> (nat \<times> error option) \<times> 'c Writer" where
  "Writer_Write N w p =
     (case enc w of
        None \<Rightarrow> ((0, Some PanicNilDereference), w)
      | Some e \<Rightarrow>
          (case Encrypt N e p of
             (b, e') \<Rightarrow>
               (case EncodeOpaque (dst w) b of
                  (Some err, d') \<Rightarrow> ((0, Some err), w\<lparr>dst := d', enc := Some e'\<rparr>)
                | (None, d') \<Rightarrow> ((length p, None), w\<lparr>dst := d', enc := Some e'\<rparr>))))"

section \<open>Connection.Handshake: the chunk size\<close>

text \<open>Lines 106 to 114 of \<^verbatim>\<open>Handshake\<close>: from the configuration and the length \<open>l\<close> of the
  staged outbound buffer, the number of bytes taken off the buffer at each write round.
  Go's integer division panics on a zero divisor.\<close>

definition Handshake_nm :: "Config \<Rightarrow> nat" where
  "Handshake_nm nc =
     (let nm = length (Pattern_Messages nc);
          nm = (if Initiator nc then nm + 1 else nm)
      in nm div 2)"

definition Handshake_chunk :: "Config \<Rightarrow> nat \<Rightarrow> error + nat" where
  "Handshake_chunk nc l =
     (if l > 0x1000 then
        (let nm = Handshake_nm nc;
             l2 = nm * 0x1000
         in if l2 < l then (if nm = 0 then Inl PanicDivideByZero else Inr ((l div nm) + 1))
            else Inr 0x1000)
      else Inr l)"

text \<open>The chunk size as the specification words it: the staged length split evenly
  across the \<open>n\<close> rounds, rounded up.\<close>

definition spec_even_split :: "nat \<Rightarrow> nat \<Rightarrow> nat" where
  "spec_even_split l n = (l + n - 1) div n"

section \<open>Connection\<close>

text \<open>The embedded \<^verbatim>\<open>io.Writer\<close> and \<^verbatim>\<open>io.Reader\<close> of a \<^verbatim>\<open>Connection\<close> are nil, or
  the connection's own staging buffer (the same object as \<open>outbuf\<close>, \<open>inbuf\<close>), or the
  stream writer and reader that \<^verbatim>\<open>Handshake\<close> installs.\<close>

datatype 'c io_Writer = Writer_nil | Writer_outbuf | Writer_stream "'c Writer"

datatype 'c io_Reader = Reader_nil | Reader_inbuf | Reader_stream "'c Reader"

record 'c Connection =
  conn_Writer :: "'c io_Writer"
  conn_Reader :: "'c io_Reader"
  outbuf :: "Buffer option"
  inbuf :: "Buffer option"

definition new_Connection :: "'c Connection" where
  "new_Connection =
     \<lparr>conn_Writer = Writer_nil, conn_Reader = Reader_nil, outbuf = None, inbuf = None\<rparr>"

definition Init :: "'c Connection \<Rightarrow> 'c Connection" where
  "Init c =
     c\<lparr>outbuf := Some [], inbuf := Some [],
       conn_Writer := Writer_outbuf, conn_Reader := Reader_inbuf\<rparr>"

definition Connection_Write ::
  "('h, 'c) noise \<Rightarrow> 'c Connection \<Rightarrow> bytes \<Rightarrow> (nat \<times> error option) \<times> 'c Connection" where
  "Connection_Write N c p =
     (case conn_Writer c of
        Writer_nil \<Rightarrow> ((0, Some PanicNilDereference), c)
      | Writer_outbuf \<Rightarrow>
          (case outbuf c of
             None \<Rightarrow> ((0, Some PanicNilDereference), c)
           | Some b \<Rightarrow> ((length p, None), c\<lparr>outbuf := Some (Buffer_Write b p)\<rparr>))
      | Writer_stream w \<Rightarrow>
          (case Writer_Write N w p of (res, w') \<Rightarrow> (res, c\<lparr>conn_Writer := Writer_stream w'\<rparr>)))"

definition Connection_Read ::
  "('h, 'c) noise \<Rightarrow> 'c Connection \<Rightarrow> nat \<Rightarrow> (bytes \<times> error option) \<times> 'c Connection" where
  "Connection_Read N c lenp =
     (case conn_Reader c of
        Reader_nil \<Rightarrow> (([], Some PanicNilDereference), c)
      | Reader_inbuf \<Rightarrow>
          (case inbuf c of
             None \<Rightarrow> (([], Some PanicNilDereference), c)
           | Some b \<Rightarrow> (case Buffer_Read b lenp of (res, b') \<Rightarrow> (res, c\<lparr>inbuf := Some b'\<rparr>)))
      | Reader_stream r \<Rightarrow>
          (case Reader_Read N r lenp of (res, r') \<Rightarrow> (res, c\<lparr>conn_Reader := Reader_stream r'\<rparr>)))"

subsection \<open>The handshake loop\<close>

text \<open>The variables of \<^verbatim>\<open>Handshake\<close> that the loop changes. \<open>cs_o\<close> and \<open>cs_i\<close> are the
  source's \<open>o\<close> and \<open>i\<close>; \<open>v_outbuf\<close>, \<open>v_inbuf\<close>, \<open>v_src\<close> and \<open>v_dst\<close> are the objects
  behind \<open>c.outbuf\<close>, \<open>c.inbuf\<close>, \<open>src\<close> and \<open>dst\<close>.\<close>

record ('h, 'c) hs_vars =
  state :: bool
  hs :: 'h
  cs_o :: "'c option"
  cs_i :: "'c option"
  v_outbuf :: Buffer
  v_inbuf :: "Buffer option"
  v_src :: Decoder
  v_dst :: Encoder

text \<open>How a part of the loop body ends: the function returns an error, the loop is left
  by \<^verbatim>\<open>break\<close>, or control goes on.\<close>

datatype 'a flow = Return error 'a | Break 'a | Continue 'a

text \<open>Lines 118 to 123: the body of \<^verbatim>\<open>if state { ... }\<close>.\<close>

definition Handshake_send ::
  "('h, 'c) noise \<Rightarrow> nat \<Rightarrow> ('h, 'c) hs_vars \<Rightarrow> ('h, 'c) hs_vars flow" where
  "Handshake_send N l v =
     (case Buffer_Next (v_outbuf v) l of
        (b, ob) \<Rightarrow>
          (case WriteMessage N (hs v) b of
             (Inl e, h') \<Rightarrow> Return e (v\<lparr>v_outbuf := ob, hs := h'\<rparr>)
           | (Inr (msg, c1, c2), h') \<Rightarrow>
               (let v1 = v\<lparr>v_outbuf := ob, hs := h', cs_o := c1, cs_i := c2\<rparr>
                in case EncodeOpaque (v_dst v) msg of
                     (Some e, d') \<Rightarrow> Return e (v1\<lparr>v_dst := d'\<rparr>)
                   | (None, d') \<Rightarrow>
                       (let v2 = v1\<lparr>v_dst := d', state := False\<rparr>
                        in if cs_o v2 \<noteq> None then Break v2 else Continue v2))))"

text \<open>Lines 125 to 131: the rest of the loop body.\<close>

definition Handshake_recv ::
  "('h, 'c) noise \<Rightarrow> ('h, 'c) hs_vars \<Rightarrow> ('h, 'c) hs_vars flow" where
  "Handshake_recv N v =
     (case DecodeOpaque (v_src v) of
        (Inl e, s') \<Rightarrow> Return e (v\<lparr>v_src := s'\<rparr>)
      | (Inr b, s') \<Rightarrow>
          (case ReadMessage N (hs v) b of
             (Inl e, h') \<Rightarrow> Return e (v\<lparr>v_src := s', hs := h', cs_i := None, cs_o := None\<rparr>)
           | (Inr (pl, c1, c2), h') \<Rightarrow>
               (let v1 = v\<lparr>v_src := s', hs := h', cs_i := c1, cs_o := c2\<rparr>
                in case v_inbuf v1 of
                     None \<Rightarrow> Return PanicNilDereference v1
                   | Some ib \<Rightarrow>
                       (let v2 = v1\<lparr>v_inbuf := Some (Buffer_Write ib pl), state := True\<rparr>
                        in if cs_o v2 \<noteq> None then Break v2 else Continue v2))))"

lemma Handshake_send_src:
  "Handshake_send N l v = Continue v' \<Longrightarrow> v_src v' = v_src v"
  by (auto simp: Handshake_send_def Let_def split: prod.splits sum.splits option.splits if_splits)

lemma Handshake_recv_src:
  "Handshake_recv N v = Continue v' \<Longrightarrow>
   length (incoming (v_src v')) < length (incoming (v_src v))"
  by (auto simp: Handshake_recv_def DecodeOpaque_def Let_def
      split: prod.splits sum.splits option.splits if_splits list.splits)

text \<open>Lines 116 to 132: the loop. Every round that does not leave it takes one frame off
  the decoder, so it ends when the peer's frames do.\<close>

function Handshake_loop ::
  "('h, 'c) noise \<Rightarrow> nat \<Rightarrow> ('h, 'c) hs_vars \<Rightarrow> error option \<times> ('h, 'c) hs_vars" where
  "Handshake_loop N l v =
     (case (if state v then Handshake_send N l v else Continue v) of
        Return e v1 \<Rightarrow> (Some e, v1)
      | Break v1 \<Rightarrow> (None, v1)
      | Continue v1 \<Rightarrow>
          (case Handshake_recv N v1 of
             Return e v2 \<Rightarrow> (Some e, v2)
           | Break v2 \<Rightarrow> (None, v2)
           | Continue v2 \<Rightarrow> Handshake_loop N l v2))"
  by pat_completeness auto
termination
proof (relation "measure (\<lambda>(N, l, v). length (incoming (v_src v)))")
  show "wf (measure (\<lambda>(N, l, v). length (incoming (v_src v))))" by simp
next
  fix N :: "('h, 'c) noise" and l :: nat and v v1 v2 :: "('h, 'c) hs_vars"
  assume a: "(if state v then Handshake_send N l v else Continue v) = Continue v1"
    and b: "Handshake_recv N v1 = Continue v2"
  have "v_src v1 = v_src v"
    using a Handshake_send_src by (cases "state v") auto
  then show "((N, l, v2), (N, l, v)) \<in> measure (\<lambda>(N, l, v). length (incoming (v_src v)))"
    using Handshake_recv_src [OF b] by simp
qed

declare Handshake_loop.simps [simp del]

text \<open>\<^verbatim>\<open>Connection.Handshake\<close>. The result is the error (\<open>None\<close>: nil), the connection
  and the transport objects as the call leaves them.\<close>

definition Handshake ::
  "('h, 'c) noise \<Rightarrow> 'c Connection \<Rightarrow> Decoder \<Rightarrow> Encoder \<Rightarrow> Config \<Rightarrow>
   error option \<times> 'c Connection \<times> Decoder \<times> Encoder" where
  "Handshake N c s d nc =
     (case outbuf c of
        None \<Rightarrow> (Some PanicNilDereference, c, s, d)
      | Some ob \<Rightarrow>
          (case Handshake_chunk nc (Buffer_Len ob) of
             Inl e \<Rightarrow> (Some e, c, s, d)
           | Inr l \<Rightarrow>
               (case Handshake_loop N l
                       \<lparr>state = Initiator nc, hs = NewHandshakeState N nc,
                        cs_o = None, cs_i = None, v_outbuf = ob, v_inbuf = inbuf c,
                        v_src = s, v_dst = d\<rparr> of
                  (Some e, v) \<Rightarrow>
                    (Some e, c\<lparr>outbuf := Some (v_outbuf v), inbuf := v_inbuf v\<rparr>,
                     v_src v, v_dst v)
                | (None, v) \<Rightarrow>
                    (let w = NewWriter (v_dst v) (cs_o v);
                         r = NewReader (v_src v) (cs_i v)
                     in case v_inbuf v of
                          None \<Rightarrow>
                            (Some PanicNilDereference, c\<lparr>outbuf := Some (v_outbuf v)\<rparr>,
                             v_src v, v_dst v)
                        | Some ib \<Rightarrow>
                            (case Buffer_ReadFrom (buf r) ib of
                               (rb, ib') \<Rightarrow>
                                 (None,
                                  c\<lparr>conn_Writer := Writer_stream w,
                                    conn_Reader := Reader_stream (r\<lparr>buf := rb\<rparr>),
                                    inbuf := None, outbuf := None\<rparr>,
                                  v_src v, v_dst v))))))"

section \<open>The RPC codecs\<close>

text \<open>\<^verbatim>\<open>rpc.Request\<close> and \<^verbatim>\<open>rpc.Response\<close>, their exported fields.\<close>

record Request =
  req_ServiceMethod :: string
  req_Seq :: "64 word"

record Response =
  resp_ServiceMethod :: string
  resp_Seq :: "64 word"
  resp_Error :: string

text \<open>A serializer library (\<^verbatim>\<open>xdr\<close> or \<^verbatim>\<open>gob\<close>) is a parameter as well: what one
  \<^verbatim>\<open>Encode\<close> call appends to the stream, and what one \<^verbatim>\<open>Decode\<close> call reads off a
  stream, together with the rest of the stream. \<open>'b\<close> is the type of the values behind
  \<^verbatim>\<open>interface{}\<close>.\<close>

record 'b serializer =
  Encode_Request :: "Request \<Rightarrow> error + bytes"
  Encode_Response :: "Response \<Rightarrow> error + bytes"
  Encode_value :: "'b \<Rightarrow> error + bytes"
  Decode_Request :: "bytes \<Rightarrow> (error + Request) \<times> bytes"
  Decode_Response :: "bytes \<Rightarrow> (error + Response) \<times> bytes"
  Decode_value :: "bytes \<Rightarrow> (error + 'b) \<times> bytes"

text \<open>The closure that a decode function returns: the decoder it captured (the unread
  rest of the envelope) and its code. Calling it decodes one value and advances the
  captured decoder.\<close>

type_synonym 'b closure = "bytes \<times> (bytes \<Rightarrow> (error + 'b) \<times> bytes)"

definition call_closure :: "'b closure \<Rightarrow> (error + 'b) \<times> 'b closure" where
  "call_closure k = (case k of (rest, f) \<Rightarrow> (case f rest of (res, rest') \<Rightarrow> (res, (rest', f))))"

definition xdrEncReq :: "'b serializer \<Rightarrow> Request \<Rightarrow> 'b \<Rightarrow> error + bytes" where
  "xdrEncReq X r i =
     (case Encode_Request X r of
        Inl err \<Rightarrow> Inl err
      | Inr b1 \<Rightarrow> (case Encode_value X i of Inl err \<Rightarrow> Inl err | Inr b2 \<Rightarrow> Inr (b1 @ b2)))"

definition xdrDecReq :: "'b serializer \<Rightarrow> bytes \<Rightarrow> (error + Request) \<times> 'b closure" where
  "xdrDecReq X b = (case Decode_Request X b of (res, rest) \<Rightarrow> (res, (rest, Decode_value X)))"

definition xdrEncResp :: "'b serializer \<Rightarrow> Response \<Rightarrow> 'b \<Rightarrow> error + bytes" where
  "xdrEncResp X r i =
     (case Encode_Response X r of
        Inl err \<Rightarrow> Inl err
      | Inr b1 \<Rightarrow> (case Encode_value X i of Inl err \<Rightarrow> Inl err | Inr b2 \<Rightarrow> Inr (b1 @ b2)))"

definition xdrDecResp :: "'b serializer \<Rightarrow> bytes \<Rightarrow> (error + Response) \<times> 'b closure" where
  "xdrDecResp X b = (case Decode_Response X b of (res, rest) \<Rightarrow> (res, (rest, Decode_value X)))"

definition gobEncReq :: "'b serializer \<Rightarrow> Request \<Rightarrow> 'b \<Rightarrow> error + bytes" where
  "gobEncReq G r i =
     (case Encode_Request G r of
        Inl err \<Rightarrow> Inl err
      | Inr b1 \<Rightarrow> (case Encode_value G i of Inl err \<Rightarrow> Inl err | Inr b2 \<Rightarrow> Inr (b1 @ b2)))"

definition gobDecReq :: "'b serializer \<Rightarrow> bytes \<Rightarrow> (error + Request) \<times> 'b closure" where
  "gobDecReq G b = (case Decode_Request G b of (res, rest) \<Rightarrow> (res, (rest, Decode_value G)))"

definition gobEncResp :: "'b serializer \<Rightarrow> Response \<Rightarrow> 'b \<Rightarrow> error + bytes" where
  "gobEncResp G r i =
     (case Encode_Response G r of
        Inl err \<Rightarrow> Inl err
      | Inr b1 \<Rightarrow> (case Encode_value G i of Inl err \<Rightarrow> Inl err | Inr b2 \<Rightarrow> Inr (b1 @ b2)))"

definition gobDecResp :: "'b serializer \<Rightarrow> bytes \<Rightarrow> (error + Response) \<times> 'b closure" where
  "gobDecResp G b = (case Decode_Response G b of (res, rest) \<Rightarrow> (res, (rest, Decode_value G)))"

subsection \<open>The client codec\<close>

text \<open>The fields of \<^verbatim>\<open>rpcClientCodec\<close> (the embedded \<^verbatim>\<open>io.Closer\<close> and the mutex are left
  out). A nil pointer or nil function value is \<open>None\<close>.\<close>

record ('c, 'b) rpcClientCodec =
  cl_src :: "Decoder option"
  cl_dst :: "Encoder option"
  cl_enc :: "'c option"
  cl_dec :: "'c option"
  cl_encode :: "Request \<Rightarrow> 'b \<Rightarrow> error + bytes"
  cl_decode :: "bytes \<Rightarrow> (error + Response) \<times> 'b closure"
  cl_decode2 :: "'b closure option"

definition WriteRequest ::
  "('h, 'c) noise \<Rightarrow> ('c, 'b) rpcClientCodec \<Rightarrow> Request \<Rightarrow> 'b \<Rightarrow>
   error option \<times> ('c, 'b) rpcClientCodec" where
  "WriteRequest N r req i =
     (case cl_encode r req i of
        Inl err \<Rightarrow> (Some err, r)
      | Inr b \<Rightarrow>
          (case cl_enc r of
             None \<Rightarrow> (Some PanicNilDereference, r)
           | Some e \<Rightarrow>
               (case Encrypt N e b of
                  (ct, e') \<Rightarrow>
                    (case cl_dst r of
                       None \<Rightarrow> (Some PanicNilDereference, r\<lparr>cl_enc := Some e'\<rparr>)
                     | Some d \<Rightarrow>
                         (case EncodeOpaque d ct of
                            (err, d') \<Rightarrow> (err, r\<lparr>cl_enc := Some e', cl_dst := Some d'\<rparr>))))))"

text \<open>\<^verbatim>\<open>ReadResponseHeader(resp)\<close>: the error, the header written to \<open>resp\<close> (\<open>None\<close>:
  \<open>resp\<close> is not written), and the codec afterwards.\<close>

definition ReadResponseHeader ::
  "('h, 'c) noise \<Rightarrow> ('c, 'b) rpcClientCodec \<Rightarrow>
   error option \<times> Response option \<times> ('c, 'b) rpcClientCodec" where
  "ReadResponseHeader N r =
     (case cl_src r of
        None \<Rightarrow> (Some PanicNilDereference, None, r)
      | Some s \<Rightarrow>
          (case DecodeOpaque s of
             (Inl err, s') \<Rightarrow> (Some err, None, r\<lparr>cl_src := Some s'\<rparr>)
           | (Inr b, s') \<Rightarrow>
               (case cl_dec r of
                  None \<Rightarrow> (Some PanicNilDereference, None, r\<lparr>cl_src := Some s'\<rparr>)
                | Some d \<Rightarrow>
                    (case Decrypt N d b of
                       (Inl err, d') \<Rightarrow>
                         (Some err, None, r\<lparr>cl_src := Some s', cl_dec := Some d'\<rparr>)
                     | (Inr pl, d') \<Rightarrow>
                         (case cl_decode r pl of
                            (Inl err, dc2) \<Rightarrow>
                              (Some err, None, r\<lparr>cl_src := Some s', cl_dec := Some d'\<rparr>)
                          | (Inr h, dc2) \<Rightarrow>
                              (None, Some h,
                               r\<lparr>cl_src := Some s', cl_dec := Some d',
                                 cl_decode2 := Some dc2\<rparr>))))))"

definition ReadResponseBody ::
  "('c, 'b) rpcClientCodec \<Rightarrow> (error + 'b) \<times> ('c, 'b) rpcClientCodec" where
  "ReadResponseBody r =
     (case cl_decode2 r of
        None \<Rightarrow> (Inl PanicNilDereference, r)
      | Some k \<Rightarrow> (case call_closure k of (res, k') \<Rightarrow> (res, r\<lparr>cl_decode2 := Some k'\<rparr>)))"

text \<open>The variables of a codec's \<^verbatim>\<open>handshake\<close> that its loop changes: the local
  \<open>state\<close> and \<open>hs\<close>, the receiver's \<open>enc\<close> and \<open>dec\<close>, and the objects behind the
  parameters \<open>src\<close> and \<open>dst\<close>.\<close>

record ('h, 'c) codec_vars =
  k_state :: bool
  k_hs :: 'h
  k_enc :: "'c option"
  k_dec :: "'c option"
  k_src :: Decoder
  k_dst :: Encoder

definition client_send ::
  "('h, 'c) noise \<Rightarrow> ('h, 'c) codec_vars \<Rightarrow> ('h, 'c) codec_vars flow" where
  "client_send N v =
     (case WriteMessage N (k_hs v) [] of
        (Inl e, h') \<Rightarrow> Return e (v\<lparr>k_hs := h'\<rparr>)
      | (Inr (msg, c1, c2), h') \<Rightarrow>
          (let v1 = v\<lparr>k_hs := h', k_enc := c1, k_dec := c2\<rparr>
           in case EncodeOpaque (k_dst v) msg of
                (Some e, d') \<Rightarrow> Return e (v1\<lparr>k_dst := d'\<rparr>)
              | (None, d') \<Rightarrow>
                  (let v2 = v1\<lparr>k_dst := d', k_state := False\<rparr>
                   in if k_enc v2 \<noteq> None then Break v2 else Continue v2)))"

definition client_recv ::
  "('h, 'c) noise \<Rightarrow> ('h, 'c) codec_vars \<Rightarrow> ('h, 'c) codec_vars flow" where
  "client_recv N v =
     (case DecodeOpaque (k_src v) of
        (Inl e, s') \<Rightarrow> Return e (v\<lparr>k_src := s'\<rparr>)
      | (Inr b, s') \<Rightarrow>
          (case ReadMessage N (k_hs v) b of
             (Inl e, h') \<Rightarrow> Return e (v\<lparr>k_src := s', k_hs := h', k_enc := None, k_dec := None\<rparr>)
           | (Inr (pl, c1, c2), h') \<Rightarrow>
               (let v1 = v\<lparr>k_src := s', k_hs := h', k_enc := c1, k_dec := c2, k_state := True\<rparr>
                in if k_enc v1 \<noteq> None then Break v1 else Continue v1)))"

lemma client_send_src: "client_send N v = Continue v' \<Longrightarrow> k_src v' = k_src v"
  by (auto simp: client_send_def Let_def split: prod.splits sum.splits option.splits if_splits)

lemma client_recv_src:
  "client_recv N v = Continue v' \<Longrightarrow>
   length (incoming (k_src v')) < length (incoming (k_src v))"
  by (auto simp: client_recv_def DecodeOpaque_def Let_def
      split: prod.splits sum.splits option.splits if_splits list.splits)

function client_loop ::
  "('h, 'c) noise \<Rightarrow> ('h, 'c) codec_vars \<Rightarrow> error option \<times> ('h, 'c) codec_vars" where
  "client_loop N v =
     (case (if k_state v then client_send N v else Continue v) of
        Return e v1 \<Rightarrow> (Some e, v1)
      | Break v1 \<Rightarrow> (None, v1)
      | Continue v1 \<Rightarrow>
          (case client_recv N v1 of
             Return e v2 \<Rightarrow> (Some e, v2)
           | Break v2 \<Rightarrow> (None, v2)
           | Continue v2 \<Rightarrow> client_loop N v2))"
  by pat_completeness auto
termination
proof (relation "measure (\<lambda>(N, v). length (incoming (k_src v)))")
  show "wf (measure (\<lambda>(N, v). length (incoming (k_src v))))" by simp
next
  fix N :: "('h, 'c) noise" and v v1 v2 :: "('h, 'c) codec_vars"
  assume a: "(if k_state v then client_send N v else Continue v) = Continue v1"
    and b: "client_recv N v1 = Continue v2"
  have "k_src v1 = k_src v"
    using a client_send_src by (cases "k_state v") auto
  then show "((N, v2), (N, v)) \<in> measure (\<lambda>(N, v). length (incoming (k_src v)))"
    using client_recv_src [OF b] by simp
qed

declare client_loop.simps [simp del]

text \<open>\<^verbatim>\<open>rpcClientCodec.handshake(src, dst, nc)\<close>: the error, the codec and the two
  transport objects afterwards. It works on its parameters \<open>src\<close> and \<open>dst\<close>; the fields
  \<open>r.src\<close> and \<open>r.dst\<close> are not assigned.\<close>

definition client_handshake ::
  "('h, 'c) noise \<Rightarrow> ('c, 'b) rpcClientCodec \<Rightarrow> Decoder \<Rightarrow> Encoder \<Rightarrow> Config \<Rightarrow>
   error option \<times> ('c, 'b) rpcClientCodec \<times> Decoder \<times> Encoder" where
  "client_handshake N r s d nc =
     (case client_loop N
             \<lparr>k_state = Initiator nc, k_hs = NewHandshakeState N nc,
              k_enc = cl_enc r, k_dec = cl_dec r, k_src = s, k_dst = d\<rparr> of
        (err, v) \<Rightarrow> (err, r\<lparr>cl_enc := k_enc v, cl_dec := k_dec v\<rparr>, k_src v, k_dst v))"

subsection \<open>The server codec\<close>

record ('c, 'b) rpcServerCodec =
  sv_src :: "Decoder option"
  sv_dst :: "Encoder option"
  sv_enc :: "'c option"
  sv_dec :: "'c option"
  sv_encode :: "Response \<Rightarrow> 'b \<Rightarrow> error + bytes"
  sv_decode :: "bytes \<Rightarrow> (error + Request) \<times> 'b closure"
  sv_decode2 :: "'b closure option"

definition WriteResponse ::
  "('h, 'c) noise \<Rightarrow> ('c, 'b) rpcServerCodec \<Rightarrow> Response \<Rightarrow> 'b \<Rightarrow>
   error option \<times> ('c, 'b) rpcServerCodec" where
  "WriteResponse N r resp i =
     (case sv_encode r resp i of
        Inl err \<Rightarrow> (Some err, r)
      | Inr b \<Rightarrow>
          (case sv_enc r of
             None \<Rightarrow> (Some PanicNilDereference, r)
           | Some e \<Rightarrow>
               (case Encrypt N e b of
                  (ct, e') \<Rightarrow>
                    (case sv_dst r of
                       None \<Rightarrow> (Some PanicNilDereference, r\<lparr>sv_enc := Some e'\<rparr>)
                     | Some d \<Rightarrow>
                         (case EncodeOpaque d ct of
                            (err, d') \<Rightarrow> (err, r\<lparr>sv_enc := Some e', sv_dst := Some d'\<rparr>))))))"

definition ReadRequestHeader ::
  "('h, 'c) noise \<Rightarrow> ('c, 'b) rpcServerCodec \<Rightarrow>
   error option \<times> Request option \<times> ('c, 'b) rpcServerCodec" where
  "ReadRequestHeader N r =
     (case sv_src r of
        None \<Rightarrow> (Some PanicNilDereference, None, r)
      | Some s \<Rightarrow>
          (case DecodeOpaque s of
             (Inl err, s') \<Rightarrow> (Some err, None, r\<lparr>sv_src := Some s'\<rparr>)
           | (Inr b, s') \<Rightarrow>
               (case sv_dec r of
                  None \<Rightarrow> (Some PanicNilDereference, None, r\<lparr>sv_src := Some s'\<rparr>)
                | Some d \<Rightarrow>
                    (case Decrypt N d b of
                       (Inl err, d') \<Rightarrow>
                         (Some err, None, r\<lparr>sv_src := Some s', sv_dec := Some d'\<rparr>)
                     | (Inr pl, d') \<Rightarrow>
                         (case sv_decode r pl of
                            (Inl err, dc2) \<Rightarrow>
                              (Some err, None, r\<lparr>sv_src := Some s', sv_dec := Some d'\<rparr>)
                          | (Inr h, dc2) \<Rightarrow>
                              (None, Some h,
                               r\<lparr>sv_src := Some s', sv_dec := Some d',
                                 sv_decode2 := Some dc2\<rparr>))))))"

definition ReadRequestBody ::
  "('c, 'b) rpcServerCodec \<Rightarrow> (error + 'b) \<times> ('c, 'b) rpcServerCodec" where
  "ReadRequestBody r =
     (case sv_decode2 r of
        None \<Rightarrow> (Inl PanicNilDereference, r)
      | Some k \<Rightarrow> (case call_closure k of (res, k') \<Rightarrow> (res, r\<lparr>sv_decode2 := Some k'\<rparr>)))"

definition server_send ::
  "('h, 'c) noise \<Rightarrow> ('h, 'c) codec_vars \<Rightarrow> ('h, 'c) codec_vars flow" where
  "server_send N v =
     (case WriteMessage N (k_hs v) [] of
        (Inl e, h') \<Rightarrow> Return e (v\<lparr>k_hs := h'\<rparr>)
      | (Inr (msg, c1, c2), h') \<Rightarrow>
          (let v1 = v\<lparr>k_hs := h', k_dec := c1, k_enc := c2\<rparr>
           in case EncodeOpaque (k_dst v) msg of
                (Some e, d') \<Rightarrow> Return e (v1\<lparr>k_dst := d'\<rparr>)
              | (None, d') \<Rightarrow>
                  (let v2 = v1\<lparr>k_dst := d', k_state := False\<rparr>
                   in if k_enc v2 \<noteq> None then Break v2 else Continue v2)))"

definition server_recv ::
  "('h, 'c) noise \<Rightarrow> ('h, 'c) codec_vars \<Rightarrow> ('h, 'c) codec_vars flow" where
  "server_recv N v =
     (case DecodeOpaque (k_src v) of
        (Inl e, s') \<Rightarrow> Return e (v\<lparr>k_src := s'\<rparr>)
      | (Inr b, s') \<Rightarrow>
          (case ReadMessage N (k_hs v) b of
             (Inl e, h') \<Rightarrow> Return e (v\<lparr>k_src := s', k_hs := h', k_dec := None, k_enc := None\<rparr>)
           | (Inr (pl, c1, c2), h') \<Rightarrow>
               (let v1 = v\<lparr>k_src := s', k_hs := h', k_dec := c1, k_enc := c2, k_state := True\<rparr>
                in if k_enc v1 \<noteq> None then Break v1 else Continue v1)))"

lemma server_send_src: "server_send N v = Continue v' \<Longrightarrow> k_src v' = k_src v"
  by (auto simp: server_send_def Let_def split: prod.splits sum.splits option.splits if_splits)

lemma server_recv_src:
  "server_recv N v = Continue v' \<Longrightarrow>
   length (incoming (k_src v')) < length (incoming (k_src v))"
  by (auto simp: server_recv_def DecodeOpaque_def Let_def
      split: prod.splits sum.splits option.splits if_splits list.splits)

function server_loop ::
  "('h, 'c) noise \<Rightarrow> ('h, 'c) codec_vars \<Rightarrow> error option \<times> ('h, 'c) codec_vars" where
  "server_loop N v =
     (case (if k_state v then server_send N v else Continue v) of
        Return e v1 \<Rightarrow> (Some e, v1)
      | Break v1 \<Rightarrow> (None, v1)
      | Continue v1 \<Rightarrow>
          (case server_recv N v1 of
             Return e v2 \<Rightarrow> (Some e, v2)
           | Break v2 \<Rightarrow> (None, v2)
           | Continue v2 \<Rightarrow> server_loop N v2))"
  by pat_completeness auto
termination
proof (relation "measure (\<lambda>(N, v). length (incoming (k_src v)))")
  show "wf (measure (\<lambda>(N, v). length (incoming (k_src v))))" by simp
next
  fix N :: "('h, 'c) noise" and v v1 v2 :: "('h, 'c) codec_vars"
  assume a: "(if k_state v then server_send N v else Continue v) = Continue v1"
    and b: "server_recv N v1 = Continue v2"
  have "k_src v1 = k_src v"
    using a server_send_src by (cases "k_state v") auto
  then show "((N, v2), (N, v)) \<in> measure (\<lambda>(N, v). length (incoming (k_src v)))"
    using server_recv_src [OF b] by simp
qed

declare server_loop.simps [simp del]

definition server_handshake ::
  "('h, 'c) noise \<Rightarrow> ('c, 'b) rpcServerCodec \<Rightarrow> Decoder \<Rightarrow> Encoder \<Rightarrow> Config \<Rightarrow>
   error option \<times> ('c, 'b) rpcServerCodec \<times> Decoder \<times> Encoder" where
  "server_handshake N r s d nc =
     (case server_loop N
             \<lparr>k_state = Initiator nc, k_hs = NewHandshakeState N nc,
              k_enc = sv_enc r, k_dec = sv_dec r, k_src = s, k_dst = d\<rparr> of
        (err, v) \<Rightarrow> (err, r\<lparr>sv_enc := k_enc v, sv_dec := k_dec v\<rparr>, k_src v, k_dst v))"

subsection \<open>The constructors\<close>

text \<open>\<^verbatim>\<open>new(rpcClientCodec)\<close> is the zero value: every pointer field nil. The constructors
  set the encode and decode functions and run the handshake on their parameters; they
  return the codec with the handshake's error.\<close>

definition NewRpcClient ::
  "('h, 'c) noise \<Rightarrow> 'b serializer \<Rightarrow> Decoder \<Rightarrow> Encoder \<Rightarrow> Config \<Rightarrow>
   error option \<times> ('c, 'b) rpcClientCodec \<times> Decoder \<times> Encoder" where
  "NewRpcClient N X s d nc =
     client_handshake N
       \<lparr>cl_src = None, cl_dst = None, cl_enc = None, cl_dec = None,
        cl_encode = xdrEncReq X, cl_decode = xdrDecResp X, cl_decode2 = None\<rparr> s d nc"

definition NewRpcSource ::
  "('h, 'c) noise \<Rightarrow> 'b serializer \<Rightarrow> Decoder \<Rightarrow> Encoder \<Rightarrow> Config \<Rightarrow>
   error option \<times> ('c, 'b) rpcServerCodec \<times> Decoder \<times> Encoder" where
  "NewRpcSource N X s d nc =
     server_handshake N
       \<lparr>sv_src = None, sv_dst = None, sv_enc = None, sv_dec = None,
        sv_encode = xdrEncResp X, sv_decode = xdrDecReq X, sv_decode2 = None\<rparr> s d nc"

definition NewGobRpcClient ::
  "('h, 'c) noise \<Rightarrow> 'b serializer \<Rightarrow> Decoder \<Rightarrow> Encoder \<Rightarrow> Config \<Rightarrow>
   error option \<times> ('c, 'b) rpcClientCodec \<times> Decoder \<times> Encoder" where
  "NewGobRpcClient N G s d nc =
     client_handshake N
       \<lparr>cl_src = None, cl_dst = None, cl_enc = None, cl_dec = None,
        cl_encode = gobEncReq G, cl_decode = gobDecResp G, cl_decode2 = None\<rparr> s d nc"

definition NewGobRpcSource ::
  "('h, 'c) noise \<Rightarrow> 'b serializer \<Rightarrow> Decoder \<Rightarrow> Encoder \<Rightarrow> Config \<Rightarrow>
   error option \<times> ('c, 'b) rpcServerCodec \<times> Decoder \<times> Encoder" where
  "NewGobRpcSource N G s d nc =
     server_handshake N
       \<lparr>sv_src = None, sv_dst = None, sv_enc = None, sv_dec = None,
        sv_encode = gobEncResp G, sv_decode = gobDecReq G, sv_decode2 = None\<rparr> s d nc"

section \<open>A small instance of the noise library\<close>

text \<open>An executable instance of the library's interface, on which the model is run at
  concrete inputs. A cipher state is a key and a nonce; a ciphertext is the plaintext
  behind a two-byte tag of key and nonce, and decryption fails when the tag is not the one
  expected. A handshake state is the number of pattern messages still to be exchanged; a
  handshake message carries its payload as it is, and both cipher states appear with the
  last message of the pattern.\<close>

type_synonym toy_cipher = "nat \<times> nat"

definition toy_Encrypt :: "toy_cipher \<Rightarrow> bytes \<Rightarrow> bytes \<times> toy_cipher" where
  "toy_Encrypt c p = (case c of (k, n) \<Rightarrow> (of_nat k # of_nat n # p, (k, n + 1)))"

definition toy_Decrypt :: "toy_cipher \<Rightarrow> bytes \<Rightarrow> (error + bytes) \<times> toy_cipher" where
  "toy_Decrypt c b =
     (case c of (k, n) \<Rightarrow>
        (if take 2 b = [of_nat k, of_nat n] then Inr (drop 2 b) else Inl (NoiseError 0),
         (k, n + 1)))"

definition toy_message ::
  "nat \<Rightarrow> bytes \<Rightarrow> (error + bytes \<times> toy_cipher option \<times> toy_cipher option) \<times> nat" where
  "toy_message h b =
     (if h = 0 then (Inl (NoiseError 1), h)
      else (Inr (b, if h = 1 then Some (1, 0) else None, if h = 1 then Some (2, 0) else None),
            h - 1))"

definition toy_noise :: "(nat, toy_cipher) noise" where
  "toy_noise =
     \<lparr>NewHandshakeState = (\<lambda>nc. length (Pattern_Messages nc)),
      WriteMessage = toy_message,
      ReadMessage = toy_message,
      Encrypt = toy_Encrypt,
      Decrypt = toy_Decrypt\<rparr>"

text \<open>An executable serializer in the same spirit: a string is a length byte and its
  characters, a sequence number is one byte, and encoding fails on what does not fit.
  The values behind \<^verbatim>\<open>interface{}\<close> are strings.\<close>

definition toy_put_string :: "string \<Rightarrow> error + bytes" where
  "toy_put_string x =
     (if length x < 256 then Inr (of_nat (length x) # map (\<lambda>c. of_nat (of_char c)) x)
      else Inl (CodecError 0))"

definition toy_get_string :: "bytes \<Rightarrow> (error + string) \<times> bytes" where
  "toy_get_string b =
     (case b of
        [] \<Rightarrow> (Inl (CodecError 1), [])
      | n # rest \<Rightarrow>
          (if unat n \<le> length rest
           then (Inr (map (\<lambda>x. char_of (unat x)) (take (unat n) rest)), drop (unat n) rest)
           else (Inl (CodecError 1), rest)))"

definition toy_put_seq :: "64 word \<Rightarrow> error + bytes" where
  "toy_put_seq x = (if unat x < 256 then Inr [of_nat (unat x)] else Inl (CodecError 2))"

definition toy_get_seq :: "bytes \<Rightarrow> (error + 64 word) \<times> bytes" where
  "toy_get_seq b =
     (case b of [] \<Rightarrow> (Inl (CodecError 3), []) | x # rest \<Rightarrow> (Inr (of_nat (unat x)), rest))"

definition toy_serializer :: "string serializer" where
  "toy_serializer =
     \<lparr>Encode_Request = (\<lambda>r.
        case toy_put_string (req_ServiceMethod r) of
          Inl e \<Rightarrow> Inl e
        | Inr b1 \<Rightarrow> (case toy_put_seq (req_Seq r) of Inl e \<Rightarrow> Inl e | Inr b2 \<Rightarrow> Inr (b1 @ b2))),
      Encode_Response = (\<lambda>r.
        case toy_put_string (resp_ServiceMethod r) of
          Inl e \<Rightarrow> Inl e
        | Inr b1 \<Rightarrow>
            (case toy_put_seq (resp_Seq r) of
               Inl e \<Rightarrow> Inl e
             | Inr b2 \<Rightarrow>
                 (case toy_put_string (resp_Error r) of
                    Inl e \<Rightarrow> Inl e
                  | Inr b3 \<Rightarrow> Inr (b1 @ b2 @ b3)))),
      Encode_value = toy_put_string,
      Decode_Request = (\<lambda>b.
        case toy_get_string b of
          (Inl e, rest) \<Rightarrow> (Inl e, rest)
        | (Inr m, rest) \<Rightarrow>
            (case toy_get_seq rest of
               (Inl e, rest') \<Rightarrow> (Inl e, rest')
             | (Inr q, rest') \<Rightarrow> (Inr \<lparr>req_ServiceMethod = m, req_Seq = q\<rparr>, rest'))),
      Decode_Response = (\<lambda>b.
        case toy_get_string b of
          (Inl e, rest) \<Rightarrow> (Inl e, rest)
        | (Inr m, rest) \<Rightarrow>
            (case toy_get_seq rest of
               (Inl e, rest') \<Rightarrow> (Inl e, rest')
             | (Inr q, rest') \<Rightarrow>
                 (case toy_get_string rest' of
                    (Inl e, rest'') \<Rightarrow> (Inl e, rest'')
                  | (Inr x, rest'') \<Rightarrow>
                      (Inr \<lparr>resp_ServiceMethod = m, resp_Seq = q, resp_Error = x\<rparr>, rest'')))),
      Decode_value = toy_get_string\<rparr>"

section \<open>Callers of Reader and Writer\<close>

text \<open>A caller that performs \<^verbatim>\<open>Write\<close> on each of a list of byte sequences, keeping
  every result, and a caller that performs \<^verbatim>\<open>Read\<close> with destinations of the given
  lengths and collects the bytes each call copied, whatever error came with them.\<close>

fun Write_each ::
  "('h, 'c) noise \<Rightarrow> 'c Writer \<Rightarrow> bytes list \<Rightarrow> (nat \<times> error option) list \<times> 'c Writer" where
  "Write_each N w [] = ([], w)"
| "Write_each N w (p # ps) =
     (case Writer_Write N w p of
        (res, w') \<Rightarrow> (case Write_each N w' ps of (rs, w'') \<Rightarrow> (res # rs, w'')))"

fun Read_each ::
  "('h, 'c) noise \<Rightarrow> 'c Reader \<Rightarrow> nat list \<Rightarrow> bytes \<times> 'c Reader" where
  "Read_each N r [] = ([], r)"
| "Read_each N r (k # ks) =
     (case Reader_Read N r k of
        ((bs, err), r') \<Rightarrow> (case Read_each N r' ks of (rest, r'') \<Rightarrow> (bs @ rest, r'')))"

text \<open>A send cipher state and a receive cipher state are correctly paired when they
  stand in a relation \<open>R\<close> that one message preserves: what the one encrypts the other
  decrypts to the same plaintext, and the two states after it are related again.\<close>

definition paired_ciphers :: "('h, 'c) noise \<Rightarrow> ('c \<Rightarrow> 'c \<Rightarrow> bool) \<Rightarrow> bool" where
  "paired_ciphers N R \<longleftrightarrow>
     (\<forall>e d p. R e d \<longrightarrow>
        fst (Decrypt N d (fst (Encrypt N e p))) = Inr p
        \<and> R (snd (Encrypt N e p)) (snd (Decrypt N d (fst (Encrypt N e p)))))"

text \<open>The frames that successive encryptions put on the wire, and the plaintexts that
  successive decryptions recover from a list of frames.\<close>

fun encrypt_each :: "('h, 'c) noise \<Rightarrow> 'c \<Rightarrow> bytes list \<Rightarrow> bytes list" where
  "encrypt_each N e [] = []"
| "encrypt_each N e (p # ps) = (case Encrypt N e p of (ct, e') \<Rightarrow> ct # encrypt_each N e' ps)"

fun decrypts_to :: "('h, 'c) noise \<Rightarrow> 'c \<Rightarrow> bytes list \<Rightarrow> bytes list \<Rightarrow> bool" where
  "decrypts_to N d [] [] = True"
| "decrypts_to N d (f # fs) (p # ps) =
     (case Decrypt N d f of (Inr pl, d') \<Rightarrow> pl = p \<and> decrypts_to N d' fs ps | (Inl e, d') \<Rightarrow> False)"
| "decrypts_to N d _ _ = False"

text \<open>The plaintexts that a reader with the given cipher state will decrypt from a list
  of frames, one after the other; a frame that does not decrypt yields none.\<close>

fun plaintexts :: "('h, 'c) noise \<Rightarrow> 'c option \<Rightarrow> bytes list \<Rightarrow> bytes list" where
  "plaintexts N None fs = []"
| "plaintexts N (Some d) [] = []"
| "plaintexts N (Some d) (f # fs) =
     (case Decrypt N d f of
        (Inr pl, d') \<Rightarrow> pl # plaintexts N (Some d') fs
      | (Inl e, d') \<Rightarrow> plaintexts N (Some d') fs)"

text \<open>What is asked of a serializer library: a value that was encoded is decoded again
  from the front of any stream that starts with its encoding, and the rest of the stream
  is left.\<close>

definition roundtrips ::
  "('a \<Rightarrow> error + bytes) \<Rightarrow> (bytes \<Rightarrow> (error + 'a) \<times> bytes) \<Rightarrow> bool" where
  "roundtrips en de \<longleftrightarrow> (\<forall>x b rest. en x = Inr b \<longrightarrow> de (b @ rest) = (Inr x, rest))"

section \<open>Theorems: the chunk size\<close>

lemma Handshake_nm_role:
  "Handshake_nm nc =
     (if Initiator nc then (length (Pattern_Messages nc) + 1) div 2
      else length (Pattern_Messages nc) div 2)"
  by (simp add: Handshake_nm_def)

lemma div_plus_one_covers:
  fixes l n :: nat
  assumes "0 < n"
  shows "l < n * (l div n + 1)"
proof -
  have "l = n * (l div n) + l mod n" by simp
  moreover have "l mod n < n" using assms by simp
  ultimately have "l < n * (l div n) + n" by linarith
  then show ?thesis by (simp add: algebra_simps)
qed

lemma even_split_bounds:
  fixes l n :: nat
  assumes "0 < n"
  shows "spec_even_split l n \<le> l div n + 1"
    and "l div n + 1 \<le> spec_even_split l n + 1"
    and "\<not> n dvd l \<Longrightarrow> l div n + 1 = spec_even_split l n"
    and "n dvd l \<Longrightarrow> l div n = spec_even_split l n"
proof -
  have a: "(l + n - 1) div n \<le> (l + n) div n"
    by (rule div_le_mono) simp
  have b: "(l + n) div n = l div n + 1" using assms by (simp add: div_add_self2)
  show "spec_even_split l n \<le> l div n + 1"
    using a b by (simp add: spec_even_split_def)
  have "l div n \<le> (l + n - 1) div n"
    by (rule div_le_mono) (use assms in simp)
  then show "l div n + 1 \<le> spec_even_split l n + 1"
    by (simp add: spec_even_split_def)
  show "l div n + 1 = spec_even_split l n" if "\<not> n dvd l"
  proof -
    have m: "0 < l mod n" using that by (simp add: dvd_eq_mod_eq_0)
    have "l + n - 1 = (l div n + 1) * n + (l mod n - 1)"
    proof -
      have "l = (l div n) * n + l mod n" by simp
      then have "l + n - 1 = (l div n) * n + n + (l mod n - 1)" using m by linarith
      then show ?thesis by (simp add: algebra_simps)
    qed
    moreover have "l mod n - 1 < n" using assms by (simp add: less_imp_diff_less)
    ultimately have "(l + n - 1) div n = l div n + 1"
      by (metis div_mult_self3 div_less add.right_neutral assms less_numeral_extra(3))
    then show ?thesis by (simp add: spec_even_split_def)
  qed
  show "l div n = spec_even_split l n" if d: "n dvd l"
  proof -
    obtain k where k: "l = n * k" using d by (auto simp: dvd_def)
    have "n * k + n - 1 = k * n + (n - 1)" using assms by (simp add: algebra_simps)
    moreover have "n - 1 < n" using assms by simp
    ultimately have "(n * k + n - 1) div n = k"
      by (metis div_mult_self3 div_less add.right_neutral assms less_numeral_extra(3))
    then show ?thesis using k assms by (simp add: spec_even_split_def)
  qed
qed

text \<open>
  Claim C3, as it holds of the code. Let \<open>L\<close> be the staged outbound length at entry and
  \<open>n\<close> the number of messages this side sends (\<open>Handshake_nm\<close>: half the pattern's
  messages, rounded up for the initiator and down for the responder). If \<open>L \<le> 4096\<close>
  the chunk per write round is \<open>L\<close> itself, so at most 4096. If \<open>4096 < L \<le> n * 4096\<close>
  the chunk is exactly 4096. If \<open>L > n * 4096\<close> and \<open>n > 0\<close> the chunk is
  \<open>L div n + 1\<close>: the even split rounded up when \<open>n\<close> does not divide \<open>L\<close>, one byte
  more than the even split when it does; in both cases \<open>n\<close> rounds of that size take all
  \<open>L\<close> bytes.
\<close>

theorem Handshake_chunk_by_cases:
  "Handshake_nm nc =
     (if Initiator nc then (length (Pattern_Messages nc) + 1) div 2
      else length (Pattern_Messages nc) div 2)
   \<and> (L \<le> 4096 \<longrightarrow> Handshake_chunk nc L = Inr L)
   \<and> (4096 < L \<and> L \<le> Handshake_nm nc * 4096 \<longrightarrow> Handshake_chunk nc L = Inr 4096)
   \<and> (Handshake_nm nc * 4096 < L \<and> 0 < Handshake_nm nc \<longrightarrow>
        Handshake_chunk nc L = Inr (L div Handshake_nm nc + 1)
        \<and> L \<le> Handshake_nm nc * (L div Handshake_nm nc + 1)
        \<and> 4096 < L div Handshake_nm nc + 1
        \<and> (if Handshake_nm nc dvd L
            then L div Handshake_nm nc + 1 = spec_even_split L (Handshake_nm nc) + 1
            else L div Handshake_nm nc + 1 = spec_even_split L (Handshake_nm nc)))"
proof (intro conjI impI)
  show "Handshake_nm nc =
     (if Initiator nc then (length (Pattern_Messages nc) + 1) div 2
      else length (Pattern_Messages nc) div 2)"
    by (rule Handshake_nm_role)
next
  assume "L \<le> 4096"
  then show "Handshake_chunk nc L = Inr L" by (simp add: Handshake_chunk_def)
next
  assume "4096 < L \<and> L \<le> Handshake_nm nc * 4096"
  then show "Handshake_chunk nc L = Inr 4096" by (simp add: Handshake_chunk_def Let_def)
next
  assume a: "Handshake_nm nc * 4096 < L \<and> 0 < Handshake_nm nc"
  then have big: "4096 < L"
    by (cases "Handshake_nm nc") auto
  show "Handshake_chunk nc L = Inr (L div Handshake_nm nc + 1)"
    using a big by (simp add: Handshake_chunk_def Let_def)
  show "L \<le> Handshake_nm nc * (L div Handshake_nm nc + 1)"
    using a div_plus_one_covers [of "Handshake_nm nc" L] by simp
  have "4096 \<le> L div Handshake_nm nc"
  proof -
    have "4096 * Handshake_nm nc \<le> L" using a by (simp add: mult.commute)
    then have "(4096 * Handshake_nm nc) div Handshake_nm nc \<le> L div Handshake_nm nc"
      by (rule div_le_mono)
    then show ?thesis using a by simp
  qed
  then show "4096 < L div Handshake_nm nc + 1" by simp
  show "if Handshake_nm nc dvd L
        then L div Handshake_nm nc + 1 = spec_even_split L (Handshake_nm nc) + 1
        else L div Handshake_nm nc + 1 = spec_even_split L (Handshake_nm nc)"
    using a even_split_bounds(3,4) [of "Handshake_nm nc" L] by simp
qed

theorem Handshake_chunk_by_cases_witness:
  "Handshake_chunk \<lparr>Initiator = True, Pattern_Messages = [[MessagePatternE], [MessagePatternE]]\<rparr> 10
     = Inr 10
   \<and> Handshake_chunk \<lparr>Initiator = True, Pattern_Messages = [[MessagePatternE], [MessagePatternE]]\<rparr> 4097
     = Inr 4098
   \<and> Handshake_chunk
       \<lparr>Initiator = True,
        Pattern_Messages = [[MessagePatternE], [MessagePatternE], [MessagePatternS]]\<rparr> 5000
     = Inr 4096
   \<and> Handshake_chunk
       \<lparr>Initiator = True,
        Pattern_Messages = [[MessagePatternE], [MessagePatternE], [MessagePatternS]]\<rparr> 50000
     = Inr 25001"
proof -
  have n1: "Handshake_nm \<lparr>Initiator = True, Pattern_Messages = [[MessagePatternE], [MessagePatternE]]\<rparr> = 1"
    by (simp add: Handshake_nm_def)
  have n2: "Handshake_nm
      \<lparr>Initiator = True,
       Pattern_Messages = [[MessagePatternE], [MessagePatternE], [MessagePatternS]]\<rparr> = 2"
    by (simp add: Handshake_nm_def)
  show ?thesis
    using
      Handshake_chunk_by_cases
        [of "\<lparr>Initiator = True, Pattern_Messages = [[MessagePatternE], [MessagePatternE]]\<rparr>" 10]
      Handshake_chunk_by_cases
        [of "\<lparr>Initiator = True, Pattern_Messages = [[MessagePatternE], [MessagePatternE]]\<rparr>" 4097]
      Handshake_chunk_by_cases
        [of "\<lparr>Initiator = True,
              Pattern_Messages = [[MessagePatternE], [MessagePatternE], [MessagePatternS]]\<rparr>" 5000]
      Handshake_chunk_by_cases
        [of "\<lparr>Initiator = True,
              Pattern_Messages = [[MessagePatternE], [MessagePatternE], [MessagePatternS]]\<rparr>" 50000]
    unfolding n1 n2 by simp
qed

text \<open>Claim C3 as the specification states it fails where the number of rounds divides
  the staged length: an initiator of a three-message pattern sends two messages, and for
  8194 staged bytes the chunk is 4098, not the even split 4097.\<close>

theorem Handshake_chunk_not_even_split:
  "Handshake_nm
     \<lparr>Initiator = True,
      Pattern_Messages = [[MessagePatternE], [MessagePatternE], [MessagePatternS]]\<rparr> = 2
   \<and> Handshake_chunk
       \<lparr>Initiator = True,
        Pattern_Messages = [[MessagePatternE], [MessagePatternE], [MessagePatternS]]\<rparr> 8194
     = Inr 4098
   \<and> spec_even_split 8194 2 = 4097
   \<and> Handshake_chunk
       \<lparr>Initiator = True,
        Pattern_Messages = [[MessagePatternE], [MessagePatternE], [MessagePatternS]]\<rparr> 8194
     \<noteq> Inr (spec_even_split 8194
              (Handshake_nm
                 \<lparr>Initiator = True,
                  Pattern_Messages = [[MessagePatternE], [MessagePatternE], [MessagePatternS]]\<rparr>))"
proof -
  have n2: "Handshake_nm
      \<lparr>Initiator = True,
       Pattern_Messages = [[MessagePatternE], [MessagePatternE], [MessagePatternS]]\<rparr> = 2"
    by (simp add: Handshake_nm_def)
  show ?thesis
    by (simp add: Handshake_chunk_def n2 spec_even_split_def)
qed

text \<open>Claim C9, at the input where the code departs from it: a responder of a
  one-message pattern sends no message, the count of its messages is zero, and with more
  than 4096 staged bytes the chunk computation divides by that zero.\<close>

theorem Handshake_chunk_responder_one_message:
  "Handshake_nm \<lparr>Initiator = False, Pattern_Messages = [[MessagePatternE, MessagePatternDHES]]\<rparr> = 0
   \<and> Handshake_chunk
       \<lparr>Initiator = False, Pattern_Messages = [[MessagePatternE, MessagePatternDHES]]\<rparr> 4097
     = Inl PanicDivideByZero"
proof -
  have n0: "Handshake_nm
      \<lparr>Initiator = False, Pattern_Messages = [[MessagePatternE, MessagePatternDHES]]\<rparr> = 0"
    by (simp add: Handshake_nm_def)
  show ?thesis
    by (simp add: Handshake_chunk_def n0)
qed

section \<open>Theorems: Reader and Writer\<close>

text \<open>
  Claim C10. When \<^verbatim>\<open>Reader.Read\<close> is called with a non-empty destination while the
  carry-over buffer is empty, and the next frame decrypts to the empty plaintext, the call
  returns no bytes and \<^verbatim>\<open>io.EOF\<close>: it takes that one frame and does not wait for
  another.
\<close>

theorem Reader_Read_empty_frame_EOF:
  assumes "buf r = []"
    and "incoming (src r) = f # fs"
    and "dec r = Some d"
    and "Decrypt N d f = (Inr [], d')"
    and "0 < lenp"
  shows "Reader_Read N r lenp =
           (([], Some EOF), r\<lparr>src := (src r)\<lparr>incoming := fs\<rparr>, dec := Some d', buf := []\<rparr>)"
  using assms
  by (simp add: Reader_Read_def Buffer_Len_def DecodeOpaque_def Buffer_Write_def
      Buffer_Read_def)

text \<open>The frame that the peer's \<^verbatim>\<open>Writer.Write\<close> of zero bytes puts on the wire is such
  a frame.\<close>

theorem Reader_Read_empty_frame_EOF_witness:
  "Writer_Write toy_noise
     \<lparr>dst = \<lparr>sent = [], capacity = None, failure = TransportError 0\<rparr>, enc = Some (1, 0)\<rparr> []
     = ((0, None),
        \<lparr>dst = \<lparr>sent = [[1, 0]], capacity = None, failure = TransportError 0\<rparr>,
         enc = Some (1, 1)\<rparr>)
   \<and> Reader_Read toy_noise
       \<lparr>src = \<lparr>incoming = [[1, 0], [1, 1, 65]], closing = TransportError 0\<rparr>,
        dec = Some (1, 0), buf = []\<rparr> 16
     = (([], Some EOF),
        \<lparr>src = \<lparr>incoming = [[1, 1, 65]], closing = TransportError 0\<rparr>,
         dec = Some (1, 1), buf = []\<rparr>)"
proof -
  have w: "Writer_Write toy_noise
     \<lparr>dst = \<lparr>sent = [], capacity = None, failure = TransportError 0\<rparr>, enc = Some (1, 0)\<rparr> []
     = ((0, None),
        \<lparr>dst = \<lparr>sent = [[1, 0]], capacity = None, failure = TransportError 0\<rparr>,
         enc = Some (1, 1)\<rparr>)"
    by (simp add: Writer_Write_def toy_noise_def toy_Encrypt_def EncodeOpaque_def)
  have d: "Decrypt toy_noise (1, 0) [1, 0] = (Inr [], (1, 1))"
    by (simp add: toy_noise_def toy_Decrypt_def)
  show ?thesis
    using w
      Reader_Read_empty_frame_EOF
        [of "\<lparr>src = \<lparr>incoming = [[1, 0], [1, 1, 65]], closing = TransportError 0\<rparr>,
              dec = Some (1, 0), buf = []\<rparr>" "[1, 0]" "[[1, 1, 65]]" "(1, 0)" toy_noise
            "(1, 1)" 16, OF _ _ _ d]
    by simp
qed

text \<open>
  Claim C7. When the frame just received does not decrypt, \<^verbatim>\<open>Reader.Read\<close>,
  \<^verbatim>\<open>ReadResponseHeader\<close> and \<^verbatim>\<open>ReadRequestHeader\<close> return the decryption error and
  nothing else: \<open>Read\<close> copies no byte (\<open>n = 0\<close>) and leaves the carry-over buffer as
  it was; the two header reads write no header and leave the pending body closure as it
  was.
\<close>

theorem decrypt_failure_delivers_nothing:
  "(buf r = [] \<and> incoming (src r) = f # fs \<and> dec r = Some d \<and> Decrypt N d f = (Inl e, d')
      \<longrightarrow> fst (Reader_Read N r lenp) = ([], Some e)
          \<and> buf (snd (Reader_Read N r lenp)) = buf r)
   \<and> (cl_src c = Some s \<and> incoming s = f # fs \<and> cl_dec c = Some d
        \<and> Decrypt N d f = (Inl e, d')
      \<longrightarrow> fst (ReadResponseHeader N c) = Some e
          \<and> fst (snd (ReadResponseHeader N c)) = None
          \<and> cl_decode2 (snd (snd (ReadResponseHeader N c))) = cl_decode2 c)
   \<and> (sv_src c' = Some s \<and> incoming s = f # fs \<and> sv_dec c' = Some d
        \<and> Decrypt N d f = (Inl e, d')
      \<longrightarrow> fst (ReadRequestHeader N c') = Some e
          \<and> fst (snd (ReadRequestHeader N c')) = None
          \<and> sv_decode2 (snd (snd (ReadRequestHeader N c'))) = sv_decode2 c')"
  by (simp add: Reader_Read_def Buffer_Len_def DecodeOpaque_def ReadResponseHeader_def
      ReadRequestHeader_def)

text \<open>A frame with a wrong tag, at a reader and at both codecs.\<close>

theorem decrypt_failure_delivers_nothing_witness:
  "fst (Reader_Read toy_noise
          \<lparr>src = \<lparr>incoming = [[3, 0, 65]], closing = EOF\<rparr>, dec = Some (1, 0), buf = []\<rparr> 16)
     = ([], Some (NoiseError 0))
   \<and> buf (snd (Reader_Read toy_noise
          \<lparr>src = \<lparr>incoming = [[3, 0, 65]], closing = EOF\<rparr>, dec = Some (1, 0), buf = []\<rparr> 16))
     = []
   \<and> fst (ReadResponseHeader toy_noise
          \<lparr>cl_src = Some \<lparr>incoming = [[3, 0, 65]], closing = EOF\<rparr>, cl_dst = None,
           cl_enc = Some (2, 0), cl_dec = Some (1, 0),
           cl_encode = xdrEncReq toy_serializer, cl_decode = xdrDecResp toy_serializer,
           cl_decode2 = None\<rparr>)
     = Some (NoiseError 0)
   \<and> fst (ReadRequestHeader toy_noise
          \<lparr>sv_src = Some \<lparr>incoming = [[3, 0, 65]], closing = EOF\<rparr>, sv_dst = None,
           sv_enc = Some (2, 0), sv_dec = Some (1, 0),
           sv_encode = gobEncResp toy_serializer, sv_decode = gobDecReq toy_serializer,
           sv_decode2 = None\<rparr>)
     = Some (NoiseError 0)"
proof -
  have d: "Decrypt toy_noise (1, 0) [3, 0, 65] = (Inl (NoiseError 0), (1, 1))"
    by (simp add: toy_noise_def toy_Decrypt_def)
  show ?thesis
    using d
      decrypt_failure_delivers_nothing
        [where N = toy_noise and f = "[3, 0, 65]" and fs = "[]" and d = "(1, 0)"
           and e = "NoiseError 0" and d' = "(1, 1)" and lenp = 16
           and s = "\<lparr>incoming = [[3, 0, 65]], closing = EOF\<rparr>"
           and r = "\<lparr>src = \<lparr>incoming = [[3, 0, 65]], closing = EOF\<rparr>,
                     dec = Some (1, 0), buf = []\<rparr>"
           and c = "\<lparr>cl_src = Some \<lparr>incoming = [[3, 0, 65]], closing = EOF\<rparr>, cl_dst = None,
                     cl_enc = Some (2, 0), cl_dec = Some (1, 0),
                     cl_encode = xdrEncReq toy_serializer,
                     cl_decode = xdrDecResp toy_serializer, cl_decode2 = None\<rparr>"
           and c' = "\<lparr>sv_src = Some \<lparr>incoming = [[3, 0, 65]], closing = EOF\<rparr>, sv_dst = None,
                      sv_enc = Some (2, 0), sv_dec = Some (1, 0),
                      sv_encode = gobEncResp toy_serializer,
                      sv_decode = gobDecReq toy_serializer, sv_decode2 = None\<rparr>"]
    by simp
qed

section \<open>Theorems: which cipher state goes where\<close>

lemma Handshake_send_Break:
  "Handshake_send N l v = Break v' \<Longrightarrow>
   cs_o v' \<noteq> None \<and>
   (\<exists>b msg h'. WriteMessage N (hs v) b = (Inr (msg, cs_o v', cs_i v'), h'))"
  by (auto simp: Handshake_send_def Let_def split: prod.splits sum.splits option.splits if_splits)
    blast

lemma Handshake_recv_Break:
  "Handshake_recv N v = Break v' \<Longrightarrow>
   cs_o v' \<noteq> None \<and> v_inbuf v' \<noteq> None \<and>
   (\<exists>b pl h'. ReadMessage N (hs v) b = (Inr (pl, cs_i v', cs_o v'), h'))"
  by (auto simp: Handshake_recv_def Let_def split: prod.splits sum.splits option.splits if_splits)
    blast

lemma Handshake_loop_Break:
  "Handshake_loop N l v = (None, v') \<Longrightarrow>
   \<exists>u. Handshake_send N l u = Break v' \<or> Handshake_recv N u = Break v'"
proof (induction N l v rule: Handshake_loop.induct)
  case (1 N l v)
  show ?case
  proof (cases "if state v then Handshake_send N l v else Continue v")
    case (Return e v1)
    then show ?thesis using "1.prems" by (simp add: Handshake_loop.simps [of N l v])
  next
    case (Break v1)
    then show ?thesis using "1.prems"
      by (auto simp: Handshake_loop.simps [of N l v] split: if_splits)
  next
    case c: (Continue v1)
    show ?thesis
    proof (cases "Handshake_recv N v1")
      case (Return e v2)
      then show ?thesis using c "1.prems" by (simp add: Handshake_loop.simps [of N l v])
    next
      case (Break v2)
      then show ?thesis using c "1.prems"
        by (auto simp: Handshake_loop.simps [of N l v])
    next
      case (Continue v2)
      then have "Handshake_loop N l v2 = (None, v')"
        using c "1.prems" by (simp add: Handshake_loop.simps [of N l v])
      then show ?thesis using "1.IH" [OF c Continue] by simp
    qed
  qed
qed

lemma client_send_Break:
  "client_send N v = Break v' \<Longrightarrow>
   k_enc v' \<noteq> None \<and>
   (\<exists>msg h'. WriteMessage N (k_hs v) [] = (Inr (msg, k_enc v', k_dec v'), h'))"
  by (auto simp: client_send_def Let_def split: prod.splits sum.splits option.splits if_splits)

lemma client_recv_Break:
  "client_recv N v = Break v' \<Longrightarrow>
   k_enc v' \<noteq> None \<and>
   (\<exists>b pl h'. ReadMessage N (k_hs v) b = (Inr (pl, k_enc v', k_dec v'), h'))"
  by (auto simp: client_recv_def Let_def split: prod.splits sum.splits option.splits if_splits)
    blast

lemma client_loop_Break:
  "client_loop N v = (None, v') \<Longrightarrow>
   \<exists>u. client_send N u = Break v' \<or> client_recv N u = Break v'"
proof (induction N v rule: client_loop.induct)
  case (1 N v)
  show ?case
  proof (cases "if k_state v then client_send N v else Continue v")
    case (Return e v1)
    then show ?thesis using "1.prems" by (simp add: client_loop.simps [of N v])
  next
    case (Break v1)
    then show ?thesis using "1.prems"
      by (auto simp: client_loop.simps [of N v] split: if_splits)
  next
    case c: (Continue v1)
    show ?thesis
    proof (cases "client_recv N v1")
      case (Return e v2)
      then show ?thesis using c "1.prems" by (simp add: client_loop.simps [of N v])
    next
      case (Break v2)
      then show ?thesis using c "1.prems"
        by (auto simp: client_loop.simps [of N v])
    next
      case (Continue v2)
      then have "client_loop N v2 = (None, v')"
        using c "1.prems" by (simp add: client_loop.simps [of N v])
      then show ?thesis using "1.IH" [OF c Continue] by simp
    qed
  qed
qed

lemma server_send_Break:
  "server_send N v = Break v' \<Longrightarrow>
   k_enc v' \<noteq> None \<and>
   (\<exists>msg h'. WriteMessage N (k_hs v) [] = (Inr (msg, k_dec v', k_enc v'), h'))"
  by (auto simp: server_send_def Let_def split: prod.splits sum.splits option.splits if_splits)

lemma server_recv_Break:
  "server_recv N v = Break v' \<Longrightarrow>
   k_enc v' \<noteq> None \<and>
   (\<exists>b pl h'. ReadMessage N (k_hs v) b = (Inr (pl, k_dec v', k_enc v'), h'))"
  by (auto simp: server_recv_def Let_def split: prod.splits sum.splits option.splits if_splits)
    blast

lemma server_loop_Break:
  "server_loop N v = (None, v') \<Longrightarrow>
   \<exists>u. server_send N u = Break v' \<or> server_recv N u = Break v'"
proof (induction N v rule: server_loop.induct)
  case (1 N v)
  show ?case
  proof (cases "if k_state v then server_send N v else Continue v")
    case (Return e v1)
    then show ?thesis using "1.prems" by (simp add: server_loop.simps [of N v])
  next
    case (Break v1)
    then show ?thesis using "1.prems"
      by (auto simp: server_loop.simps [of N v] split: if_splits)
  next
    case c: (Continue v1)
    show ?thesis
    proof (cases "server_recv N v1")
      case (Return e v2)
      then show ?thesis using c "1.prems" by (simp add: server_loop.simps [of N v])
    next
      case (Break v2)
      then show ?thesis using c "1.prems"
        by (auto simp: server_loop.simps [of N v])
    next
      case (Continue v2)
      then have "server_loop N v2 = (None, v')"
        using c "1.prems" by (simp add: server_loop.simps [of N v])
      then show ?thesis using "1.IH" [OF c Continue] by simp
    qed
  qed
qed

lemma Handshake_success:
  assumes "Handshake N c s d nc = (None, c', s', d')"
  shows "\<exists>ob l v ib.
           outbuf c = Some ob \<and> Handshake_chunk nc (Buffer_Len ob) = Inr l
           \<and> Handshake_loop N l
                \<lparr>state = Initiator nc, hs = NewHandshakeState N nc, cs_o = None, cs_i = None,
                 v_outbuf = ob, v_inbuf = inbuf c, v_src = s, v_dst = d\<rparr> = (None, v)
           \<and> v_inbuf v = Some ib
           \<and> c' = c\<lparr>conn_Writer := Writer_stream \<lparr>dst = v_dst v, enc = cs_o v\<rparr>,
                    conn_Reader := Reader_stream \<lparr>src = v_src v, dec = cs_i v, buf = ib\<rparr>,
                    inbuf := None, outbuf := None\<rparr>
           \<and> s' = v_src v \<and> d' = v_dst v"
  using assms
  by (auto simp: Handshake_def Let_def NewWriter_def NewReader_def Buffer_ReadFrom_def
      split: option.splits sum.splits prod.splits)

text \<open>The facts that run the model on the small instance.\<close>

lemmas toy_run =
  Handshake_def Init_def new_Connection_def Handshake_chunk_def Handshake_nm_def Buffer_Len_def
  Handshake_loop.simps Handshake_recv_def Handshake_send_def toy_noise_def toy_message_def
  DecodeOpaque_def EncodeOpaque_def Buffer_Write_def Buffer_Next_def NewReader_def NewWriter_def
  Buffer_ReadFrom_def Connection_Write_def

lemmas toy_codec_run =
  NewRpcSource_def NewRpcClient_def NewGobRpcSource_def NewGobRpcClient_def
  server_handshake_def server_loop.simps server_send_def server_recv_def
  client_handshake_def client_loop.simps client_send_def client_recv_def
  toy_noise_def toy_message_def DecodeOpaque_def EncodeOpaque_def

lemmas toy_run_chunk =
  Handshake_def Init_def new_Connection_def Buffer_Len_def
  Handshake_loop.simps Handshake_recv_def Handshake_send_def toy_noise_def toy_message_def
  DecodeOpaque_def EncodeOpaque_def Buffer_Write_def Buffer_Next_def NewReader_def NewWriter_def
  Buffer_ReadFrom_def Connection_Write_def

text \<open>A responder of a one-message pattern: its only engine call is the
  \<open>ReadMessage\<close> of the peer's message.\<close>

lemma toy_responder_one_message:
  "Handshake toy_noise (Init new_Connection) \<lparr>incoming = [[]], closing = EOF\<rparr>
     \<lparr>sent = [], capacity = None, failure = EOF\<rparr>
     \<lparr>Initiator = False, Pattern_Messages = [[MessagePatternE]]\<rparr>
   = (None,
      \<lparr>conn_Writer = Writer_stream
         \<lparr>dst = \<lparr>sent = [], capacity = None, failure = EOF\<rparr>, enc = Some (2, 0)\<rparr>,
       conn_Reader = Reader_stream
         \<lparr>src = \<lparr>incoming = [], closing = EOF\<rparr>, dec = Some (1, 0), buf = []\<rparr>,
       outbuf = None, inbuf = None\<rparr>,
      \<lparr>incoming = [], closing = EOF\<rparr>, \<lparr>sent = [], capacity = None, failure = EOF\<rparr>)"
  by (simp add: toy_run)

text \<open>A server that is the responder of a two-message pattern: its last engine call is
  the \<open>WriteMessage\<close> of the second message. A client that is the initiator of the same
  pattern: its last engine call is the \<open>ReadMessage\<close> of that message.\<close>

lemma toy_server_two_messages:
  "NewRpcSource toy_noise toy_serializer \<lparr>incoming = [[]], closing = EOF\<rparr>
     \<lparr>sent = [], capacity = None, failure = EOF\<rparr>
     \<lparr>Initiator = False, Pattern_Messages = [[MessagePatternE], [MessagePatternE]]\<rparr>
   = (None,
      \<lparr>sv_src = None, sv_dst = None, sv_enc = Some (2, 0), sv_dec = Some (1, 0),
       sv_encode = xdrEncResp toy_serializer, sv_decode = xdrDecReq toy_serializer,
       sv_decode2 = None\<rparr>,
      \<lparr>incoming = [], closing = EOF\<rparr>, \<lparr>sent = [[]], capacity = None, failure = EOF\<rparr>)"
  by (simp add: toy_codec_run)

lemma toy_client_two_messages:
  "NewRpcClient toy_noise toy_serializer \<lparr>incoming = [[]], closing = EOF\<rparr>
     \<lparr>sent = [], capacity = None, failure = EOF\<rparr>
     \<lparr>Initiator = True, Pattern_Messages = [[MessagePatternE], [MessagePatternE]]\<rparr>
   = (None,
      \<lparr>cl_src = None, cl_dst = None, cl_enc = Some (1, 0), cl_dec = Some (2, 0),
       cl_encode = xdrEncReq toy_serializer, cl_decode = xdrDecResp toy_serializer,
       cl_decode2 = None\<rparr>,
      \<lparr>incoming = [], closing = EOF\<rparr>, \<lparr>sent = [[]], capacity = None, failure = EOF\<rparr>)"
  by (simp add: toy_codec_run)

text \<open>
  Claim C2, as it holds of the code. A handshake that succeeds has installed the two
  cipher states of an engine call that returned a first one. \<^verbatim>\<open>Connection.Handshake\<close>
  installs the first cipher result of \<open>WriteMessage\<close> as the writer's encrypt cipher and
  the second as the reader's decrypt cipher, and the first cipher result of
  \<open>ReadMessage\<close> as the reader's decrypt cipher and the second as the writer's encrypt
  cipher. The client codec installs the first result as \<open>enc\<close> and the second as \<open>dec\<close>
  after either call; the server codec installs the first as \<open>dec\<close> and the second as
  \<open>enc\<close> after either call.
\<close>

theorem handshake_cipher_positions:
  "(Handshake N c s1 d1 nc = (None, c', s1', d1') \<longrightarrow>
      (\<exists>w r. conn_Writer c' = Writer_stream w \<and> conn_Reader c' = Reader_stream r
         \<and> enc w \<noteq> None
         \<and> ((\<exists>h b msg h'. WriteMessage N h b = (Inr (msg, enc w, dec r), h'))
            \<or> (\<exists>h b pl h'. ReadMessage N h b = (Inr (pl, dec r, enc w), h')))))
   \<and> (client_handshake N k s2 d2 nc2 = (None, k', s2', d2') \<longrightarrow>
        cl_enc k' \<noteq> None
        \<and> ((\<exists>h msg h'. WriteMessage N h [] = (Inr (msg, cl_enc k', cl_dec k'), h'))
           \<or> (\<exists>h b pl h'. ReadMessage N h b = (Inr (pl, cl_enc k', cl_dec k'), h'))))
   \<and> (server_handshake N q s3 d3 nc3 = (None, q', s3', d3') \<longrightarrow>
        sv_enc q' \<noteq> None
        \<and> ((\<exists>h msg h'. WriteMessage N h [] = (Inr (msg, sv_dec q', sv_enc q'), h'))
           \<or> (\<exists>h b pl h'. ReadMessage N h b = (Inr (pl, sv_dec q', sv_enc q'), h'))))"
proof -
  have A: "Handshake N c s1 d1 nc = (None, c', s1', d1') \<longrightarrow>
      (\<exists>w r. conn_Writer c' = Writer_stream w \<and> conn_Reader c' = Reader_stream r
         \<and> enc w \<noteq> None
         \<and> ((\<exists>h b msg h'. WriteMessage N h b = (Inr (msg, enc w, dec r), h'))
            \<or> (\<exists>h b pl h'. ReadMessage N h b = (Inr (pl, dec r, enc w), h'))))"
  proof
  assume a: "Handshake N c s1 d1 nc = (None, c', s1', d1')"
  from Handshake_success [OF a] obtain ob l v ib where
    lp: "Handshake_loop N l
           \<lparr>state = Initiator nc, hs = NewHandshakeState N nc, cs_o = None, cs_i = None,
            v_outbuf = ob, v_inbuf = inbuf c, v_src = s1, v_dst = d1\<rparr> = (None, v)"
    and c': "c' = c\<lparr>conn_Writer := Writer_stream \<lparr>dst = v_dst v, enc = cs_o v\<rparr>,
                    conn_Reader := Reader_stream \<lparr>src = v_src v, dec = cs_i v, buf = ib\<rparr>,
                    inbuf := None, outbuf := None\<rparr>"
    by blast
  from Handshake_loop_Break [OF lp] obtain u where
    "Handshake_send N l u = Break v \<or> Handshake_recv N u = Break v" by blast
  then have "cs_o v \<noteq> None
      \<and> ((\<exists>h b msg h'. WriteMessage N h b = (Inr (msg, cs_o v, cs_i v), h'))
         \<or> (\<exists>h b pl h'. ReadMessage N h b = (Inr (pl, cs_i v, cs_o v), h')))"
    using Handshake_send_Break [of N l u v] Handshake_recv_Break [of N u v] by blast
  then show "\<exists>w r. conn_Writer c' = Writer_stream w \<and> conn_Reader c' = Reader_stream r
         \<and> enc w \<noteq> None
         \<and> ((\<exists>h b msg h'. WriteMessage N h b = (Inr (msg, enc w, dec r), h'))
            \<or> (\<exists>h b pl h'. ReadMessage N h b = (Inr (pl, dec r, enc w), h')))"
    by (simp add: c')
  qed
  have B: "client_handshake N k s2 d2 nc2 = (None, k', s2', d2') \<longrightarrow>
        cl_enc k' \<noteq> None
        \<and> ((\<exists>h msg h'. WriteMessage N h [] = (Inr (msg, cl_enc k', cl_dec k'), h'))
           \<or> (\<exists>h b pl h'. ReadMessage N h b = (Inr (pl, cl_enc k', cl_dec k'), h')))"
  proof
  assume a: "client_handshake N k s2 d2 nc2 = (None, k', s2', d2')"
  then obtain v where
    lp: "client_loop N
           \<lparr>k_state = Initiator nc2, k_hs = NewHandshakeState N nc2,
            k_enc = cl_enc k, k_dec = cl_dec k, k_src = s2, k_dst = d2\<rparr> = (None, v)"
    and k': "k' = k\<lparr>cl_enc := k_enc v, cl_dec := k_dec v\<rparr>"
    by (auto simp: client_handshake_def split: prod.splits)
  from client_loop_Break [OF lp] obtain u where
    "client_send N u = Break v \<or> client_recv N u = Break v" by blast
  then have "k_enc v \<noteq> None
      \<and> ((\<exists>h msg h'. WriteMessage N h [] = (Inr (msg, k_enc v, k_dec v), h'))
         \<or> (\<exists>h b pl h'. ReadMessage N h b = (Inr (pl, k_enc v, k_dec v), h')))"
    using client_send_Break [of N u v] client_recv_Break [of N u v] by blast
  then show "cl_enc k' \<noteq> None
        \<and> ((\<exists>h msg h'. WriteMessage N h [] = (Inr (msg, cl_enc k', cl_dec k'), h'))
           \<or> (\<exists>h b pl h'. ReadMessage N h b = (Inr (pl, cl_enc k', cl_dec k'), h')))"
    by (simp add: k')
  qed
  have C: "server_handshake N q s3 d3 nc3 = (None, q', s3', d3') \<longrightarrow>
        sv_enc q' \<noteq> None
        \<and> ((\<exists>h msg h'. WriteMessage N h [] = (Inr (msg, sv_dec q', sv_enc q'), h'))
           \<or> (\<exists>h b pl h'. ReadMessage N h b = (Inr (pl, sv_dec q', sv_enc q'), h')))"
  proof
  assume a: "server_handshake N q s3 d3 nc3 = (None, q', s3', d3')"
  then obtain v where
    lp: "server_loop N
           \<lparr>k_state = Initiator nc3, k_hs = NewHandshakeState N nc3,
            k_enc = sv_enc q, k_dec = sv_dec q, k_src = s3, k_dst = d3\<rparr> = (None, v)"
    and q': "q' = q\<lparr>sv_enc := k_enc v, sv_dec := k_dec v\<rparr>"
    by (auto simp: server_handshake_def split: prod.splits)
  from server_loop_Break [OF lp] obtain u where
    "server_send N u = Break v \<or> server_recv N u = Break v" by blast
  then have "k_enc v \<noteq> None
      \<and> ((\<exists>h msg h'. WriteMessage N h [] = (Inr (msg, k_dec v, k_enc v), h'))
         \<or> (\<exists>h b pl h'. ReadMessage N h b = (Inr (pl, k_dec v, k_enc v), h')))"
    using server_send_Break [of N u v] server_recv_Break [of N u v] by blast
  then show "sv_enc q' \<noteq> None
        \<and> ((\<exists>h msg h'. WriteMessage N h [] = (Inr (msg, sv_dec q', sv_enc q'), h'))
           \<or> (\<exists>h b pl h'. ReadMessage N h b = (Inr (pl, sv_dec q', sv_enc q'), h')))"
    by (simp add: q')
  qed
  show ?thesis by (rule conjI [OF A conjI [OF B C]])
qed

theorem handshake_cipher_positions_witness:
  "Handshake toy_noise (Init new_Connection) \<lparr>incoming = [[]], closing = EOF\<rparr>
     \<lparr>sent = [], capacity = None, failure = EOF\<rparr>
     \<lparr>Initiator = False, Pattern_Messages = [[MessagePatternE]]\<rparr>
   = (None,
      \<lparr>conn_Writer = Writer_stream
         \<lparr>dst = \<lparr>sent = [], capacity = None, failure = EOF\<rparr>, enc = Some (2, 0)\<rparr>,
       conn_Reader = Reader_stream
         \<lparr>src = \<lparr>incoming = [], closing = EOF\<rparr>, dec = Some (1, 0), buf = []\<rparr>,
       outbuf = None, inbuf = None\<rparr>,
      \<lparr>incoming = [], closing = EOF\<rparr>, \<lparr>sent = [], capacity = None, failure = EOF\<rparr>)
   \<and> ((\<exists>h b msg h'.
          WriteMessage toy_noise h b = (Inr (msg, Some (2, 0), Some (1, 0)), h'))
      \<or> (\<exists>h b pl h'.
          ReadMessage toy_noise h b = (Inr (pl, Some (1, 0), Some (2, 0)), h')))
   \<and> ((\<exists>h msg h'.
          WriteMessage toy_noise h [] = (Inr (msg, Some (1, 0), Some (2, 0)), h'))
      \<or> (\<exists>h b pl h'.
          ReadMessage toy_noise h b = (Inr (pl, Some (1, 0), Some (2, 0)), h')))"
  using toy_responder_one_message
    handshake_cipher_positions
      [where N = toy_noise and c = "Init new_Connection"
         and ?s1.0 = "\<lparr>incoming = [[]], closing = EOF\<rparr>"
         and ?d1.0 = "\<lparr>sent = [], capacity = None, failure = EOF\<rparr>"
         and nc = "\<lparr>Initiator = False, Pattern_Messages = [[MessagePatternE]]\<rparr>"
         and c' = "\<lparr>conn_Writer = Writer_stream
                      \<lparr>dst = \<lparr>sent = [], capacity = None, failure = EOF\<rparr>, enc = Some (2, 0)\<rparr>,
                    conn_Reader = Reader_stream
                      \<lparr>src = \<lparr>incoming = [], closing = EOF\<rparr>, dec = Some (1, 0), buf = []\<rparr>,
                    outbuf = None, inbuf = None\<rparr>"
         and ?s1' = "\<lparr>incoming = [], closing = EOF\<rparr>"
         and ?d1' = "\<lparr>sent = [], capacity = None, failure = EOF\<rparr>"
         and k = "\<lparr>cl_src = None, cl_dst = None, cl_enc = None, cl_dec = None,
                   cl_encode = xdrEncReq toy_serializer, cl_decode = xdrDecResp toy_serializer,
                   cl_decode2 = None\<rparr>"
         and ?s2.0 = "\<lparr>incoming = [[]], closing = EOF\<rparr>"
         and ?d2.0 = "\<lparr>sent = [], capacity = None, failure = EOF\<rparr>"
         and ?nc2.0 = "\<lparr>Initiator = True,
                        Pattern_Messages = [[MessagePatternE], [MessagePatternE]]\<rparr>"
         and k' = "\<lparr>cl_src = None, cl_dst = None, cl_enc = Some (1, 0), cl_dec = Some (2, 0),
                    cl_encode = xdrEncReq toy_serializer, cl_decode = xdrDecResp toy_serializer,
                    cl_decode2 = None\<rparr>"
         and ?s2' = "\<lparr>incoming = [], closing = EOF\<rparr>"
         and ?d2' = "\<lparr>sent = [[]], capacity = None, failure = EOF\<rparr>"
         and q = "\<lparr>sv_src = None, sv_dst = None, sv_enc = None, sv_dec = None,
                   sv_encode = xdrEncResp toy_serializer, sv_decode = xdrDecReq toy_serializer,
                   sv_decode2 = None\<rparr>"
         and ?s3.0 = "\<lparr>incoming = [[]], closing = EOF\<rparr>"
         and ?d3.0 = "\<lparr>sent = [], capacity = None, failure = EOF\<rparr>"
         and ?nc3.0 = "\<lparr>Initiator = False,
                        Pattern_Messages = [[MessagePatternE], [MessagePatternE]]\<rparr>"
         and q' = "\<lparr>sv_src = None, sv_dst = None, sv_enc = Some (2, 0), sv_dec = Some (1, 0),
                    sv_encode = xdrEncResp toy_serializer, sv_decode = xdrDecReq toy_serializer,
                    sv_decode2 = None\<rparr>"
         and ?s3' = "\<lparr>incoming = [], closing = EOF\<rparr>"
         and ?d3' = "\<lparr>sent = [[]], capacity = None, failure = EOF\<rparr>"]
    toy_client_two_messages [unfolded NewRpcClient_def]
    toy_server_two_messages [unfolded NewRpcSource_def]
  by simp

text \<open>Claim C2 as the specification states it fails: the first cipher result of an
  engine call is not always installed as the encrypt cipher. Here the engine's call
  returns \<open>(1, 0)\<close> first and \<open>(2, 0)\<close> second; the connection that read the last message
  and the server codec that wrote it both decrypt with the first and encrypt with the
  second.\<close>

theorem first_cipher_installed_as_decrypt:
  "ReadMessage toy_noise
     (NewHandshakeState toy_noise \<lparr>Initiator = False, Pattern_Messages = [[MessagePatternE]]\<rparr>) []
     = (Inr ([], Some (1, 0), Some (2, 0)), 0)
   \<and> Handshake toy_noise (Init new_Connection) \<lparr>incoming = [[]], closing = EOF\<rparr>
       \<lparr>sent = [], capacity = None, failure = EOF\<rparr>
       \<lparr>Initiator = False, Pattern_Messages = [[MessagePatternE]]\<rparr>
     = (None,
        \<lparr>conn_Writer = Writer_stream
           \<lparr>dst = \<lparr>sent = [], capacity = None, failure = EOF\<rparr>, enc = Some (2, 0)\<rparr>,
         conn_Reader = Reader_stream
           \<lparr>src = \<lparr>incoming = [], closing = EOF\<rparr>, dec = Some (1, 0), buf = []\<rparr>,
         outbuf = None, inbuf = None\<rparr>,
        \<lparr>incoming = [], closing = EOF\<rparr>, \<lparr>sent = [], capacity = None, failure = EOF\<rparr>)
   \<and> WriteMessage toy_noise 1 [] = (Inr ([], Some (1, 0), Some (2, 0)), 0)
   \<and> NewRpcSource toy_noise toy_serializer \<lparr>incoming = [[]], closing = EOF\<rparr>
       \<lparr>sent = [], capacity = None, failure = EOF\<rparr>
       \<lparr>Initiator = False, Pattern_Messages = [[MessagePatternE], [MessagePatternE]]\<rparr>
     = (None,
        \<lparr>sv_src = None, sv_dst = None, sv_enc = Some (2, 0), sv_dec = Some (1, 0),
         sv_encode = xdrEncResp toy_serializer, sv_decode = xdrDecReq toy_serializer,
         sv_decode2 = None\<rparr>,
        \<lparr>incoming = [], closing = EOF\<rparr>, \<lparr>sent = [[]], capacity = None, failure = EOF\<rparr>)
   \<and> Some (2, 0) \<noteq> (Some (1, 0) :: toy_cipher option)"
proof -
  have "ReadMessage toy_noise
     (NewHandshakeState toy_noise \<lparr>Initiator = False, Pattern_Messages = [[MessagePatternE]]\<rparr>) []
     = (Inr ([], Some (1, 0), Some (2, 0)), 0)"
    by (simp add: toy_noise_def toy_message_def)
  moreover have "WriteMessage toy_noise 1 [] = (Inr ([], Some (1, 0), Some (2, 0)), 0)"
    by (simp add: toy_noise_def toy_message_def)
  ultimately show ?thesis
    using toy_responder_one_message toy_server_two_messages by simp
qed

section \<open>Theorems: writes and reads over one stream\<close>

lemma Write_each_sent:
  "Write_each N w bs = (res, w') \<Longrightarrow> \<forall>x\<in>set res. snd x = None \<Longrightarrow> enc w = Some e \<Longrightarrow>
   sent (dst w') = sent (dst w) @ encrypt_each N e bs \<and> map fst res = map length bs"
proof (induction bs arbitrary: w res e w')
  case Nil
  then show ?case by simp
next
  case (Cons p ps)
  obtain ct e' where E: "Encrypt N e p = (ct, e')" by (cases "Encrypt N e p")
  obtain r1 w1 where W: "Writer_Write N w p = (r1, w1)" by (cases "Writer_Write N w p")
  obtain rs w2 where R: "Write_each N w1 ps = (rs, w2)" by (cases "Write_each N w1 ps")
  from Cons.prems(1) W R have res: "res = r1 # rs" and w': "w' = w2" by auto
  from Cons.prems(2) res have r1: "snd r1 = None" and rs: "\<forall>x\<in>set rs. snd x = None" by auto
  from W r1 Cons.prems(3) E have w1: "enc w1 = Some e'" "sent (dst w1) = sent (dst w) @ [ct]"
    "fst r1 = length p"
    by (auto simp: Writer_Write_def EncodeOpaque_def split: option.splits prod.splits nat.splits)
  from Cons.IH [OF R rs w1(1)] show ?case
    using res w' w1 E by simp
qed

lemma paired_decrypts_to:
  "paired_ciphers N R \<Longrightarrow> R e d \<Longrightarrow> decrypts_to N d (encrypt_each N e bs) bs"
proof (induction bs arbitrary: e d)
  case Nil
  then show ?case by simp
next
  case (Cons p ps)
  obtain ct e' where E: "Encrypt N e p = (ct, e')" by (cases "Encrypt N e p")
  obtain x d' where D: "Decrypt N d ct = (x, d')" by (cases "Decrypt N d ct")
  from Cons.prems E D have "x = Inr p" "R e' d'"
    unfolding paired_ciphers_def by (metis fst_conv snd_conv)+
  then show ?case using Cons.IH [OF Cons.prems(1), of e' d'] E D by simp
qed

lemma Read_each_frames:
  "decrypts_to N d (incoming (src r)) ps \<Longrightarrow> dec r = Some d \<Longrightarrow> \<forall>k\<in>set ks. 0 < k \<Longrightarrow>
   prefix (fst (Read_each N r ks)) (buf r @ concat ps)
   \<and> (length (buf r) + length (concat ps) + length ps \<le> length ks \<longrightarrow>
        fst (Read_each N r ks) = buf r @ concat ps)"
proof (induction ks arbitrary: r d ps)
  case Nil
  then show ?case by simp
next
  case (Cons k ks)
  have k: "0 < k" and ks: "\<forall>k\<in>set ks. 0 < k" using Cons.prems(3) by auto
  show ?case
  proof (cases "buf r = []")
    case False
    let ?r' = "r\<lparr>buf := drop k (buf r)\<rparr>"
    have rd: "Reader_Read N r k = ((take k (buf r), None), ?r')"
      using False by (simp add: Reader_Read_def Buffer_Len_def Buffer_Read_def)
    have ih: "prefix (fst (Read_each N ?r' ks)) (drop k (buf r) @ concat ps)
      \<and> (length (drop k (buf r)) + length (concat ps) + length ps \<le> length ks \<longrightarrow>
          fst (Read_each N ?r' ks) = drop k (buf r) @ concat ps)"
      using Cons.IH [of d ?r' ps] Cons.prems(1,2) ks by simp
    have split: "buf r @ concat ps = take k (buf r) @ (drop k (buf r) @ concat ps)"
      by simp
    have len: "length (drop k (buf r)) < length (buf r)" using False k by simp
    show ?thesis
      unfolding split using ih rd len
      by (auto split: prod.splits)
  next
    case True
    show ?thesis
    proof (cases "incoming (src r)")
      case Nil
      then have ps: "ps = []" using Cons.prems(1) by (cases ps) auto
      have rd: "Reader_Read N r k = (([], Some (closing (src r))), r)"
        using True Nil by (simp add: Reader_Read_def Buffer_Len_def DecodeOpaque_def)
      show ?thesis
        using Cons.IH [of d r ps] Cons.prems(1,2) ks rd ps True
        by (auto split: prod.splits)
    next
      case (Cons f fs)
      then obtain p ps' d' where ps: "ps = p # ps'" and D: "Decrypt N d f = (Inr p, d')"
        and rest: "decrypts_to N d' fs ps'"
        using Cons.prems(1) by (cases ps) (auto split: prod.splits sum.splits)
      let ?r' = "r\<lparr>src := (src r)\<lparr>incoming := fs\<rparr>, dec := Some d', buf := drop k p\<rparr>"
      have rd: "\<exists>err. Reader_Read N r k = ((take k p, err), ?r')"
        using True Cons D Cons.prems(2)
        by (simp add: Reader_Read_def Buffer_Len_def DecodeOpaque_def Buffer_Write_def
            Buffer_Read_def)
      have ih: "prefix (fst (Read_each N ?r' ks)) (drop k p @ concat ps')
        \<and> (length (drop k p) + length (concat ps') + length ps' \<le> length ks \<longrightarrow>
            fst (Read_each N ?r' ks) = drop k p @ concat ps')"
        using Cons.IH [of d' ?r' ps'] rest ks by simp
      have split: "buf r @ concat ps = take k p @ (drop k p @ concat ps')"
        using True ps by simp
      have len: "length (drop k p) \<le> length p" by simp
      show ?thesis
        unfolding split using ih rd len True ps
        by (auto split: prod.splits)
    qed
  qed
qed


lemma toy_paired: "paired_ciphers toy_noise (=)"
  by (auto simp: paired_ciphers_def toy_noise_def toy_Encrypt_def toy_Decrypt_def)

text \<open>
  Claim C4. Let a writer and the peer's reader hold correctly paired cipher states, the
  writer perform \<open>Write\<close> on \<open>b1 .. bN\<close>, every one succeeding, and the reader receive
  exactly the frames so written. Then every write returned the full length of its input;
  whatever the destination sizes (all positive), the bytes the reads return are, in
  order, a prefix of \<open>b1 @ .. @ bN\<close>; and with enough reads (the number of bytes plus the
  number of writes is enough) they are exactly \<open>b1 @ .. @ bN\<close>. A single successful write
  returns the length of its input in any case.
\<close>

theorem Write_then_Read_roundtrip:
  assumes "paired_ciphers N R" and "R e d"
    and "enc w = Some e" and "sent (dst w) = []"
    and "Write_each N w bs = (res, w')" and "\<forall>x\<in>set res. snd x = None"
    and "dec r = Some d" and "buf r = []" and "incoming (src r) = sent (dst w')"
    and "\<forall>k\<in>set ks. 0 < k"
  shows "map fst res = map length bs
    \<and> prefix (fst (Read_each N r ks)) (concat bs)
    \<and> (length (concat bs) + length bs \<le> length ks \<longrightarrow> fst (Read_each N r ks) = concat bs)
    \<and> (\<forall>w1 p n w2. Writer_Write N w1 p = ((n, None), w2) \<longrightarrow> n = length p)"
proof -
  have sent: "sent (dst w') = encrypt_each N e bs" and n: "map fst res = map length bs"
    using Write_each_sent [OF assms(5) assms(6) assms(3)] assms(4) by simp_all
  have "decrypts_to N d (incoming (src r)) bs"
    using paired_decrypts_to [OF assms(1) assms(2)] assms(9) sent by simp
  from Read_each_frames [OF this assms(7) assms(10)]
  have rd: "prefix (fst (Read_each N r ks)) (concat bs)
    \<and> (length (concat bs) + length bs \<le> length ks \<longrightarrow> fst (Read_each N r ks) = concat bs)"
    using assms(8) by simp
  have one: "\<forall>w1 p n w2. Writer_Write N w1 p = ((n, None), w2) \<longrightarrow> n = length p"
    by (auto simp: Writer_Write_def split: option.splits prod.splits)
  show ?thesis using n rd one by blast
qed

theorem Write_then_Read_roundtrip_witness:
  "Write_each toy_noise
     \<lparr>dst = \<lparr>sent = [], capacity = None, failure = EOF\<rparr>, enc = Some (1, 0)\<rparr>
     [[65, 66], [], [67]]
     = ([(2, None), (0, None), (1, None)],
        \<lparr>dst = \<lparr>sent = [[1, 0, 65, 66], [1, 1], [1, 2, 67]], capacity = None, failure = EOF\<rparr>,
         enc = Some (1, 3)\<rparr>)
   \<and> fst (Read_each toy_noise
        \<lparr>src = \<lparr>incoming = [[1, 0, 65, 66], [1, 1], [1, 2, 67]], closing = EOF\<rparr>,
         dec = Some (1, 0), buf = []\<rparr> [1, 4, 4, 4, 4, 4])
     = [65, 66, 67]"
proof -
  have w: "Write_each toy_noise
     \<lparr>dst = \<lparr>sent = [], capacity = None, failure = EOF\<rparr>, enc = Some (1, 0)\<rparr>
     [[65, 66], [], [67]]
     = ([(2, None), (0, None), (1, None)],
        \<lparr>dst = \<lparr>sent = [[1, 0, 65, 66], [1, 1], [1, 2, 67]], capacity = None, failure = EOF\<rparr>,
         enc = Some (1, 3)\<rparr>)"
    by (simp add: Writer_Write_def toy_noise_def toy_Encrypt_def EncodeOpaque_def)
  show ?thesis
    using w
      Write_then_Read_roundtrip
        [OF toy_paired, of "(1, 0)" "(1, 0)"
           "\<lparr>dst = \<lparr>sent = [], capacity = None, failure = EOF\<rparr>, enc = Some (1, 0)\<rparr>"
           "[[65, 66], [], [67]]" "[(2, None), (0, None), (1, None)]"
           "\<lparr>dst = \<lparr>sent = [[1, 0, 65, 66], [1, 1], [1, 2, 67]], capacity = None,
                    failure = EOF\<rparr>,
              enc = Some (1, 3)\<rparr>"
           "\<lparr>src = \<lparr>incoming = [[1, 0, 65, 66], [1, 1], [1, 2, 67]], closing = EOF\<rparr>,
              dec = Some (1, 0), buf = []\<rparr>"
           "[1, 4, 4, 4, 4, 4]"]
    by simp
qed

section \<open>Theorems: the carry-over buffer\<close>

lemma Reader_Read_nonempty:
  "buf r \<noteq> [] \<Longrightarrow>
   Reader_Read N r k = ((take k (buf r), None), r\<lparr>buf := drop k (buf r)\<rparr>)"
  by (simp add: Reader_Read_def Buffer_Len_def Buffer_Read_def)

lemma Reader_Read_no_frame:
  "buf r = [] \<Longrightarrow> incoming (src r) = [] \<Longrightarrow>
   Reader_Read N r k = (([], Some (closing (src r))), r)"
  by (simp add: Reader_Read_def Buffer_Len_def DecodeOpaque_def)

lemma Reader_Read_frame:
  assumes "buf r = []" and "incoming (src r) = f # fs" and "dec r = Some d"
  shows "src (snd (Reader_Read N r k)) = (src r)\<lparr>incoming := fs\<rparr>"
    and "dec (snd (Reader_Read N r k)) = Some (snd (Decrypt N d f))"
    and "fst (Decrypt N d f) = Inr pl \<Longrightarrow>
         fst (fst (Reader_Read N r k)) = take k pl \<and> buf (snd (Reader_Read N r k)) = drop k pl"
    and "fst (Decrypt N d f) = Inl e \<Longrightarrow>
         fst (Reader_Read N r k) = ([], Some e) \<and> buf (snd (Reader_Read N r k)) = []"
  using assms
  by (auto simp: Reader_Read_def Buffer_Len_def DecodeOpaque_def Buffer_Write_def Buffer_Read_def
      split: prod.splits sum.splits)

lemma Reader_Read_nil_cipher:
  "buf r = [] \<Longrightarrow> incoming (src r) = f # fs \<Longrightarrow> dec r = None \<Longrightarrow>
   Reader_Read N r k = (([], Some PanicNilDereference), r\<lparr>src := (src r)\<lparr>incoming := fs\<rparr>\<rparr>)"
  by (simp add: Reader_Read_def Buffer_Len_def DecodeOpaque_def)

lemma Read_each_buf:
  "buf (snd (Read_each N r ks)) = []
   \<or> (buf r \<noteq> [] \<and> suffix (buf (snd (Read_each N r ks))) (buf r))
   \<or> (\<exists>pl\<in>set (plaintexts N (dec r) (incoming (src r))).
         suffix (buf (snd (Read_each N r ks))) pl)"
proof (induction ks arbitrary: r)
  case Nil
  show ?case by (cases "buf r = []") simp_all
next
  case (Cons k ks)
  let ?r1 = "snd (Reader_Read N r k)"
  have step: "snd (Read_each N r (k # ks)) = snd (Read_each N ?r1 ks)"
    by (simp split: prod.splits)
  let ?b = "buf (snd (Read_each N ?r1 ks))"
  note ih = Cons.IH [of ?r1]
  show ?case
  proof (cases "buf r = []")
    case False
    have r1: "?r1 = r\<lparr>buf := drop k (buf r)\<rparr>"
      using Reader_Read_nonempty [OF False, where N = N and k = k] by simp
    have "suffix (drop k (buf r)) (buf r)" by (rule suffix_drop)
    then show ?thesis
      unfolding step using ih False r1 by (auto intro: suffix_order.trans)
  next
    case True
    show ?thesis
    proof (cases "incoming (src r)")
      case Nil
      then have "?r1 = r" using Reader_Read_no_frame [OF True, where N = N and k = k] by simp
      then show ?thesis unfolding step using ih True by auto
    next
      case (Cons f fs)
      show ?thesis
      proof (cases "dec r")
        case None
        then have "?r1 = r\<lparr>src := (src r)\<lparr>incoming := fs\<rparr>\<rparr>"
          using Reader_Read_nil_cipher [OF True Cons, where N = N and k = k] by simp
        then show ?thesis unfolding step using ih True None by auto
      next
        case (Some d)
        note rf = Reader_Read_frame [OF True Cons Some, where N = N and k = k]
        obtain x d' where D: "Decrypt N d f = (x, d')" by (cases "Decrypt N d f")
        show ?thesis
        proof (cases x)
          case (Inl e)
          then have "buf ?r1 = []" using rf(4) [of e] D by simp
          moreover have "plaintexts N (dec ?r1) (incoming (src ?r1))
              = plaintexts N (dec r) (incoming (src r))"
            using rf(1,2) D Inl Some Cons by simp
          ultimately show ?thesis unfolding step using ih by auto
        next
          case (Inr pl)
          then have b1: "buf ?r1 = drop k pl" using rf(3) [of pl] D by simp
          have pts: "plaintexts N (dec r) (incoming (src r))
              = pl # plaintexts N (dec ?r1) (incoming (src ?r1))"
            using rf(1,2) D Inr Some Cons by simp
          have "suffix (drop k pl) pl" by (rule suffix_drop)
          then show ?thesis
            unfolding step pts using ih b1 by (auto intro: suffix_order.trans)
        qed
      qed
    qed
  qed
qed

text \<open>An initiator that staged 5000 bytes before a three-message handshake, and the
  responder that receives its two messages.\<close>

lemma toy_initiator_5000:
  "Handshake toy_noise
     (snd (Connection_Write toy_noise (Init new_Connection) (replicate 5000 65)))
     \<lparr>incoming = [[]], closing = EOF\<rparr> \<lparr>sent = [], capacity = None, failure = EOF\<rparr>
     \<lparr>Initiator = True,
      Pattern_Messages = [[MessagePatternE], [MessagePatternE], [MessagePatternS]]\<rparr>
   = (None,
      \<lparr>conn_Writer = Writer_stream
         \<lparr>dst = \<lparr>sent = [replicate 4096 65, replicate 904 65], capacity = None,
                 failure = EOF\<rparr>,
          enc = Some (1, 0)\<rparr>,
       conn_Reader = Reader_stream
         \<lparr>src = \<lparr>incoming = [], closing = EOF\<rparr>, dec = Some (2, 0), buf = []\<rparr>,
       outbuf = None, inbuf = None\<rparr>,
      \<lparr>incoming = [], closing = EOF\<rparr>,
      \<lparr>sent = [replicate 4096 65, replicate 904 65], capacity = None, failure = EOF\<rparr>)"
  by (simp add: toy_run)

lemma toy_responder_5000:
  "Handshake toy_noise (Init new_Connection)
     \<lparr>incoming = [replicate 4096 65, replicate 904 65], closing = EOF\<rparr>
     \<lparr>sent = [], capacity = None, failure = EOF\<rparr>
     \<lparr>Initiator = False,
      Pattern_Messages = [[MessagePatternE], [MessagePatternE], [MessagePatternS]]\<rparr>
   = (None,
      \<lparr>conn_Writer = Writer_stream
         \<lparr>dst = \<lparr>sent = [[]], capacity = None, failure = EOF\<rparr>, enc = Some (2, 0)\<rparr>,
       conn_Reader = Reader_stream
         \<lparr>src = \<lparr>incoming = [], closing = EOF\<rparr>, dec = Some (1, 0),
          buf = replicate 4096 65 @ replicate 904 65\<rparr>,
       outbuf = None, inbuf = None\<rparr>,
      \<lparr>incoming = [], closing = EOF\<rparr>, \<lparr>sent = [[]], capacity = None, failure = EOF\<rparr>)"
  by (simp add: toy_run)

text \<open>
  Claim C6, as it holds of the code. While the carry-over buffer is not empty a
  \<open>Read\<close> serves from it and touches neither the transport nor the cipher. When it is
  empty a \<open>Read\<close> performs exactly one receive, which either fails or takes one frame;
  the frame is decrypted once, and on success its plaintext is what is served and kept.
  So at every point (after any sequence of reads) the buffer is empty, or is a rest of
  what the reader held at the start (what \<^verbatim>\<open>Handshake\<close> seeded it with), or is a rest of
  the plaintext of one frame; for a reader made by \<^verbatim>\<open>NewReader\<close>, which starts empty, it
  is empty or a rest of the plaintext of one frame.
\<close>

theorem Reader_buffer_one_frame:
  "(buf r \<noteq> [] \<longrightarrow>
      Reader_Read N r k = ((take k (buf r), None), r\<lparr>buf := drop k (buf r)\<rparr>))
   \<and> (buf r = [] \<and> incoming (src r) = [] \<longrightarrow>
        Reader_Read N r k = (([], Some (closing (src r))), r))
   \<and> (buf r = [] \<and> incoming (src r) = f # fs \<and> dec r = Some d \<longrightarrow>
        src (snd (Reader_Read N r k)) = (src r)\<lparr>incoming := fs\<rparr>
        \<and> dec (snd (Reader_Read N r k)) = Some (snd (Decrypt N d f))
        \<and> (case fst (Decrypt N d f) of
             Inr pl \<Rightarrow>
               fst (fst (Reader_Read N r k)) = take k pl
               \<and> buf (snd (Reader_Read N r k)) = drop k pl
           | Inl e \<Rightarrow>
               fst (Reader_Read N r k) = ([], Some e) \<and> buf (snd (Reader_Read N r k)) = []))
   \<and> (buf (snd (Read_each N r ks)) = []
      \<or> (buf r \<noteq> [] \<and> suffix (buf (snd (Read_each N r ks))) (buf r))
      \<or> (\<exists>pl\<in>set (plaintexts N (dec r) (incoming (src r))).
            suffix (buf (snd (Read_each N r ks))) pl))
   \<and> (buf (snd (Read_each N (NewReader s c) ks)) = []
      \<or> (\<exists>pl\<in>set (plaintexts N c (incoming s)).
            suffix (buf (snd (Read_each N (NewReader s c) ks))) pl))"
proof -
  have A: "buf r \<noteq> [] \<longrightarrow>
      Reader_Read N r k = ((take k (buf r), None), r\<lparr>buf := drop k (buf r)\<rparr>)"
    using Reader_Read_nonempty by blast
  have B: "buf r = [] \<and> incoming (src r) = [] \<longrightarrow>
        Reader_Read N r k = (([], Some (closing (src r))), r)"
    using Reader_Read_no_frame by blast
  have C: "buf r = [] \<and> incoming (src r) = f # fs \<and> dec r = Some d \<longrightarrow>
        src (snd (Reader_Read N r k)) = (src r)\<lparr>incoming := fs\<rparr>
        \<and> dec (snd (Reader_Read N r k)) = Some (snd (Decrypt N d f))
        \<and> (case fst (Decrypt N d f) of
             Inr pl \<Rightarrow>
               fst (fst (Reader_Read N r k)) = take k pl
               \<and> buf (snd (Reader_Read N r k)) = drop k pl
           | Inl e \<Rightarrow>
               fst (Reader_Read N r k) = ([], Some e) \<and> buf (snd (Reader_Read N r k)) = [])"
  proof
    assume a: "buf r = [] \<and> incoming (src r) = f # fs \<and> dec r = Some d"
    note rf = Reader_Read_frame [where r = r and f = f and fs = fs and d = d and N = N and k = k]
    show "src (snd (Reader_Read N r k)) = (src r)\<lparr>incoming := fs\<rparr>
        \<and> dec (snd (Reader_Read N r k)) = Some (snd (Decrypt N d f))
        \<and> (case fst (Decrypt N d f) of
             Inr pl \<Rightarrow>
               fst (fst (Reader_Read N r k)) = take k pl
               \<and> buf (snd (Reader_Read N r k)) = drop k pl
           | Inl e \<Rightarrow>
               fst (Reader_Read N r k) = ([], Some e) \<and> buf (snd (Reader_Read N r k)) = [])"
      using a rf by (cases "fst (Decrypt N d f)") simp_all
  qed
  note D = Read_each_buf [of N r ks]
  have E: "buf (snd (Read_each N (NewReader s c) ks)) = []
      \<or> (\<exists>pl\<in>set (plaintexts N c (incoming s)).
            suffix (buf (snd (Read_each N (NewReader s c) ks))) pl)"
    using Read_each_buf [of N "NewReader s c" ks] by (simp add: NewReader_def)
  show ?thesis by (rule conjI [OF A conjI [OF B conjI [OF C conjI [OF D E]]]])
qed

theorem Reader_buffer_one_frame_witness:
  "Reader_Read toy_noise
     \<lparr>src = \<lparr>incoming = [[1, 1, 68]], closing = EOF\<rparr>, dec = Some (1, 1), buf = [66, 67]\<rparr> 1
     = (([66], None),
        \<lparr>src = \<lparr>incoming = [[1, 1, 68]], closing = EOF\<rparr>, dec = Some (1, 1), buf = [67]\<rparr>)
   \<and> Reader_Read toy_noise
       \<lparr>src = \<lparr>incoming = [], closing = EOF\<rparr>, dec = Some (1, 2), buf = []\<rparr> 1
     = (([], Some EOF), \<lparr>src = \<lparr>incoming = [], closing = EOF\<rparr>, dec = Some (1, 2), buf = []\<rparr>)
   \<and> Reader_Read toy_noise
       \<lparr>src = \<lparr>incoming = [[1, 0, 65, 66, 67], [1, 1, 68]], closing = EOF\<rparr>,
        dec = Some (1, 0), buf = []\<rparr> 1
     = (([65], None),
        \<lparr>src = \<lparr>incoming = [[1, 1, 68]], closing = EOF\<rparr>, dec = Some (1, 1), buf = [66, 67]\<rparr>)
   \<and> buf (snd (Read_each toy_noise
        (NewReader \<lparr>incoming = [[1, 0, 65, 66, 67], [1, 1, 68]], closing = EOF\<rparr> (Some (1, 0)))
        [1, 1]))
     = [67]
   \<and> plaintexts toy_noise (Some (1, 0)) [[1, 0, 65, 66, 67], [1, 1, 68]]
     = [[65, 66, 67], [68]]"
proof -
  have p: "plaintexts toy_noise (Some (1, 0)) [[1, 0, 65, 66, 67], [1, 1, 68]]
     = [[65, 66, 67], [68]]"
    by (simp add: toy_noise_def toy_Decrypt_def)
  have r1: "Reader_Read toy_noise
       \<lparr>src = \<lparr>incoming = [[1, 0, 65, 66, 67], [1, 1, 68]], closing = EOF\<rparr>,
        dec = Some (1, 0), buf = []\<rparr> 1
     = (([65], None),
        \<lparr>src = \<lparr>incoming = [[1, 1, 68]], closing = EOF\<rparr>, dec = Some (1, 1), buf = [66, 67]\<rparr>)"
    by (simp add: Reader_Read_def Buffer_Len_def DecodeOpaque_def Buffer_Write_def
        Buffer_Read_def toy_noise_def toy_Decrypt_def)
  have r2: "buf (snd (Read_each toy_noise
        (NewReader \<lparr>incoming = [[1, 0, 65, 66, 67], [1, 1, 68]], closing = EOF\<rparr> (Some (1, 0)))
        [1, 1]))
     = [67]"
    by (simp add: NewReader_def Reader_Read_def Buffer_Len_def DecodeOpaque_def Buffer_Write_def
        Buffer_Read_def toy_noise_def toy_Decrypt_def)
  show ?thesis
    using p r1 r2
      Reader_buffer_one_frame
        [where N = toy_noise and k = 1
           and r = "\<lparr>src = \<lparr>incoming = [[1, 1, 68]], closing = EOF\<rparr>, dec = Some (1, 1),
                     buf = [66, 67]\<rparr>"]
      Reader_buffer_one_frame
        [where N = toy_noise and k = 1
           and r = "\<lparr>src = \<lparr>incoming = [], closing = EOF\<rparr>, dec = Some (1, 2), buf = []\<rparr>"]
      Reader_buffer_one_frame
        [where N = toy_noise and k = 1 and f = "[1, 0, 65, 66, 67]" and fs = "[[1, 1, 68]]"
           and d = "(1, 0)"
           and r = "\<lparr>src = \<lparr>incoming = [[1, 0, 65, 66, 67], [1, 1, 68]], closing = EOF\<rparr>,
                     dec = Some (1, 0), buf = []\<rparr>"]
    by simp
qed

text \<open>Claim C6 as the specification states it fails right after \<^verbatim>\<open>Handshake\<close>: the
  responder of a three-message pattern receives two messages, of 4096 and of 904 payload
  bytes, and the reader it ends with holds all 5000 bytes, which is no rest of either
  frame.\<close>

theorem Handshake_seeds_more_than_one_frame:
  "Handshake toy_noise
     (snd (Connection_Write toy_noise (Init new_Connection) (replicate 5000 65)))
     \<lparr>incoming = [[]], closing = EOF\<rparr> \<lparr>sent = [], capacity = None, failure = EOF\<rparr>
     \<lparr>Initiator = True,
      Pattern_Messages = [[MessagePatternE], [MessagePatternE], [MessagePatternS]]\<rparr>
   = (None,
      \<lparr>conn_Writer = Writer_stream
         \<lparr>dst = \<lparr>sent = [replicate 4096 65, replicate 904 65], capacity = None,
                 failure = EOF\<rparr>,
          enc = Some (1, 0)\<rparr>,
       conn_Reader = Reader_stream
         \<lparr>src = \<lparr>incoming = [], closing = EOF\<rparr>, dec = Some (2, 0), buf = []\<rparr>,
       outbuf = None, inbuf = None\<rparr>,
      \<lparr>incoming = [], closing = EOF\<rparr>,
      \<lparr>sent = [replicate 4096 65, replicate 904 65], capacity = None, failure = EOF\<rparr>)
   \<and> Handshake toy_noise (Init new_Connection)
       \<lparr>incoming = [replicate 4096 65, replicate 904 65], closing = EOF\<rparr>
       \<lparr>sent = [], capacity = None, failure = EOF\<rparr>
       \<lparr>Initiator = False,
        Pattern_Messages = [[MessagePatternE], [MessagePatternE], [MessagePatternS]]\<rparr>
     = (None,
        \<lparr>conn_Writer = Writer_stream
           \<lparr>dst = \<lparr>sent = [[]], capacity = None, failure = EOF\<rparr>, enc = Some (2, 0)\<rparr>,
         conn_Reader = Reader_stream
           \<lparr>src = \<lparr>incoming = [], closing = EOF\<rparr>, dec = Some (1, 0),
            buf = replicate 4096 65 @ replicate 904 65\<rparr>,
         outbuf = None, inbuf = None\<rparr>,
        \<lparr>incoming = [], closing = EOF\<rparr>, \<lparr>sent = [[]], capacity = None, failure = EOF\<rparr>)
   \<and> length (replicate 4096 (65 :: byte) @ replicate 904 65) = 5000
   \<and> \<not> (\<exists>f\<in>set [replicate 4096 (65 :: byte), replicate 904 65].
           suffix (replicate 4096 65 @ replicate 904 65) f)"
proof -
  have "\<not> suffix (replicate 4096 (65 :: byte) @ replicate 904 65) (replicate 4096 65)"
    using suffix_length_le [of "replicate 4096 (65 :: byte) @ replicate 904 65" "replicate 4096 65"]
    by auto
  moreover have "\<not> suffix (replicate 4096 (65 :: byte) @ replicate 904 65) (replicate 904 65)"
    using suffix_length_le [of "replicate 4096 (65 :: byte) @ replicate 904 65" "replicate 904 65"]
    by auto
  ultimately show ?thesis
    using toy_initiator_5000 toy_responder_5000 by simp
qed

section \<open>Theorems: the codecs as constructed\<close>

lemma client_handshake_fields:
  "cl_src (fst (snd (client_handshake N r s d nc))) = cl_src r"
  "cl_dst (fst (snd (client_handshake N r s d nc))) = cl_dst r"
  "cl_encode (fst (snd (client_handshake N r s d nc))) = cl_encode r"
  by (simp_all add: client_handshake_def split: prod.splits)

lemma server_handshake_fields:
  "sv_src (fst (snd (server_handshake N r s d nc))) = sv_src r"
  "sv_dst (fst (snd (server_handshake N r s d nc))) = sv_dst r"
  by (simp_all add: server_handshake_def split: prod.splits)

lemma WriteRequest_nil_dst: "cl_dst r = None \<Longrightarrow> fst (WriteRequest N r req i) \<noteq> None"
  by (simp add: WriteRequest_def split: sum.splits option.splits prod.splits)

lemma WriteResponse_nil_dst: "sv_dst r = None \<Longrightarrow> fst (WriteResponse N r resp i) \<noteq> None"
  by (simp add: WriteResponse_def split: sum.splits option.splits prod.splits)

text \<open>The encode and decode functions by themselves: with a serializer that round-trips
  single values, a header and a body encoded into one envelope are recovered by the
  decode function and the closure it returns, which then has consumed the envelope. The
  small serializer is such a library.\<close>

lemma envelope_roundtrip:
  assumes "roundtrips (Encode_Request X) (Decode_Request X)"
    and "roundtrips (Encode_Response X) (Decode_Response X)"
    and "roundtrips (Encode_value X) (Decode_value X)"
  shows "xdrEncReq X rq i = Inr b \<Longrightarrow>
           fst (xdrDecReq X b) = Inr rq \<and> call_closure (snd (xdrDecReq X b)) = (Inr i, ([], Decode_value X))"
    and "xdrEncResp X rs i = Inr b \<Longrightarrow>
           fst (xdrDecResp X b) = Inr rs \<and> call_closure (snd (xdrDecResp X b)) = (Inr i, ([], Decode_value X))"
    and "gobEncReq X rq i = Inr b \<Longrightarrow>
           fst (gobDecReq X b) = Inr rq \<and> call_closure (snd (gobDecReq X b)) = (Inr i, ([], Decode_value X))"
    and "gobEncResp X rs i = Inr b \<Longrightarrow>
           fst (gobDecResp X b) = Inr rs \<and> call_closure (snd (gobDecResp X b)) = (Inr i, ([], Decode_value X))"
proof -
  have v: "\<And>x b. Encode_value X x = Inr b \<Longrightarrow> Decode_value X b = (Inr x, [])"
    using assms(3) unfolding roundtrips_def by (metis append_Nil2)
  have q: "\<And>x b rest. Encode_Request X x = Inr b \<Longrightarrow> Decode_Request X (b @ rest) = (Inr x, rest)"
    using assms(1) unfolding roundtrips_def by blast
  have p: "\<And>x b rest. Encode_Response X x = Inr b \<Longrightarrow> Decode_Response X (b @ rest) = (Inr x, rest)"
    using assms(2) unfolding roundtrips_def by blast
  show "xdrEncReq X rq i = Inr b \<Longrightarrow>
           fst (xdrDecReq X b) = Inr rq \<and> call_closure (snd (xdrDecReq X b)) = (Inr i, ([], Decode_value X))"
    by (auto simp: xdrEncReq_def xdrDecReq_def call_closure_def v q split: sum.splits)
  show "xdrEncResp X rs i = Inr b \<Longrightarrow>
           fst (xdrDecResp X b) = Inr rs \<and> call_closure (snd (xdrDecResp X b)) = (Inr i, ([], Decode_value X))"
    by (auto simp: xdrEncResp_def xdrDecResp_def call_closure_def v p split: sum.splits)
  show "gobEncReq X rq i = Inr b \<Longrightarrow>
           fst (gobDecReq X b) = Inr rq \<and> call_closure (snd (gobDecReq X b)) = (Inr i, ([], Decode_value X))"
    by (auto simp: gobEncReq_def gobDecReq_def call_closure_def v q split: sum.splits)
  show "gobEncResp X rs i = Inr b \<Longrightarrow>
           fst (gobDecResp X b) = Inr rs \<and> call_closure (snd (gobDecResp X b)) = (Inr i, ([], Decode_value X))"
    by (auto simp: gobEncResp_def gobDecResp_def call_closure_def v p split: sum.splits)
qed

lemma byte_of_nat_unat: "n < 256 \<Longrightarrow> unat (of_nat n :: byte) = n"
  by (simp add: unat_of_nat)

lemma toy_char_roundtrip: "char_of (unat (of_nat (of_char c) :: byte)) = c"
proof -
  have "(of_char c :: nat) < 256" by simp
  then have "unat (of_nat (of_char c) :: byte) = of_char c" by (rule byte_of_nat_unat)
  then show ?thesis by simp
qed

lemma toy_string_roundtrip: "roundtrips toy_put_string toy_get_string"
  by (auto simp: roundtrips_def toy_put_string_def toy_get_string_def byte_of_nat_unat
      toy_char_roundtrip comp_def map_idI split: if_splits)

lemma ucast_byte_back:
  "unat (x :: 64 word) < 256 \<Longrightarrow> (ucast (ucast x :: byte) :: 64 word) = x"
proof -
  assume a: "unat x < 256"
  have "unat (of_nat (unat x) :: byte) = unat x"
    using a by (simp only: unat_of_nat) simp
  then have "unat (ucast x :: byte) = unat x" by simp
  then have "(of_nat (unat (ucast x :: byte)) :: 64 word) = of_nat (unat x)" by (rule arg_cong)
  then show ?thesis by simp
qed

lemma toy_seq_roundtrip: "roundtrips toy_put_seq toy_get_seq"
  by (auto simp: roundtrips_def toy_put_seq_def toy_get_seq_def ucast_byte_back split: if_splits)

lemma toy_serializer_roundtrips:
  "roundtrips (Encode_Request toy_serializer) (Decode_Request toy_serializer)"
  "roundtrips (Encode_Response toy_serializer) (Decode_Response toy_serializer)"
  "roundtrips (Encode_value toy_serializer) (Decode_value toy_serializer)"
proof -
  have s: "\<And>x b rest. toy_put_string x = Inr b \<Longrightarrow> toy_get_string (b @ rest) = (Inr x, rest)"
    using toy_string_roundtrip unfolding roundtrips_def by blast
  have q: "\<And>x b rest. toy_put_seq x = Inr b \<Longrightarrow> toy_get_seq (b @ rest) = (Inr x, rest)"
    using toy_seq_roundtrip unfolding roundtrips_def by blast
  show "roundtrips (Encode_Request toy_serializer) (Decode_Request toy_serializer)"
    by (auto simp: roundtrips_def toy_serializer_def s q split: sum.splits)
  show "roundtrips (Encode_Response toy_serializer) (Decode_Response toy_serializer)"
    by (auto simp: roundtrips_def toy_serializer_def s q split: sum.splits)
  show "roundtrips (Encode_value toy_serializer) (Decode_value toy_serializer)"
    by (simp add: toy_serializer_def toy_string_roundtrip)
qed


text \<open>
  Claim C5, where the code departs from it. The four constructors run the handshake on
  their parameters and never assign the codec's \<open>src\<close> and \<open>dst\<close> fields, which the
  read and write operations use. So on a codec as constructed every write fails (with
  the serializer's error, or else by a nil dereference at \<open>r.enc\<close> or \<open>r.dst\<close>) and
  every header read is a nil dereference at \<open>r.src\<close>: no call crosses to the peer. The
  last conjunct runs a client call on the small instance after a successful handshake.
\<close>

theorem constructed_codecs_cannot_send:
  "fst (WriteRequest N (fst (snd (NewRpcClient N X s d nc))) req i) \<noteq> None
   \<and> fst (WriteRequest N (fst (snd (NewGobRpcClient N X s d nc))) req i) \<noteq> None
   \<and> fst (WriteResponse N (fst (snd (NewRpcSource N X s d nc))) resp i) \<noteq> None
   \<and> fst (WriteResponse N (fst (snd (NewGobRpcSource N X s d nc))) resp i) \<noteq> None
   \<and> fst (ReadResponseHeader N (fst (snd (NewRpcClient N X s d nc)))) = Some PanicNilDereference
   \<and> fst (ReadResponseHeader N (fst (snd (NewGobRpcClient N X s d nc)))) = Some PanicNilDereference
   \<and> fst (ReadRequestHeader N (fst (snd (NewRpcSource N X s d nc)))) = Some PanicNilDereference
   \<and> fst (ReadRequestHeader N (fst (snd (NewGobRpcSource N X s d nc)))) = Some PanicNilDereference
   \<and> WriteRequest toy_noise
       (fst (snd (NewRpcClient toy_noise toy_serializer \<lparr>incoming = [[]], closing = EOF\<rparr>
          \<lparr>sent = [], capacity = None, failure = EOF\<rparr>
          \<lparr>Initiator = True, Pattern_Messages = [[MessagePatternE], [MessagePatternE]]\<rparr>)))
       \<lparr>req_ServiceMethod = ''Arith.Add'', req_Seq = 1\<rparr> ''ab''
     = (Some PanicNilDereference,
        \<lparr>cl_src = None, cl_dst = None, cl_enc = Some (1, 1), cl_dec = Some (2, 0),
         cl_encode = xdrEncReq toy_serializer, cl_decode = xdrDecResp toy_serializer,
         cl_decode2 = None\<rparr>)"
proof -
  have run: "WriteRequest toy_noise
       (fst (snd (NewRpcClient toy_noise toy_serializer \<lparr>incoming = [[]], closing = EOF\<rparr>
          \<lparr>sent = [], capacity = None, failure = EOF\<rparr>
          \<lparr>Initiator = True, Pattern_Messages = [[MessagePatternE], [MessagePatternE]]\<rparr>)))
       \<lparr>req_ServiceMethod = ''Arith.Add'', req_Seq = 1\<rparr> ''ab''
     = (Some PanicNilDereference,
        \<lparr>cl_src = None, cl_dst = None, cl_enc = Some (1, 1), cl_dec = Some (2, 0),
         cl_encode = xdrEncReq toy_serializer, cl_decode = xdrDecResp toy_serializer,
         cl_decode2 = None\<rparr>)"
    by (simp only: toy_client_two_messages fst_conv snd_conv)
      (simp add: WriteRequest_def toy_noise_def toy_Encrypt_def xdrEncReq_def toy_serializer_def
        toy_put_string_def toy_put_seq_def)
  show ?thesis
    using run
    by (simp add: WriteRequest_nil_dst WriteResponse_nil_dst client_handshake_fields
        server_handshake_fields NewRpcClient_def NewGobRpcClient_def NewRpcSource_def
        NewGobRpcSource_def ReadResponseHeader_def ReadRequestHeader_def)
qed

section \<open>Theorems: bytes staged before the handshake\<close>

lemma toy_responder_staged:
  "Handshake toy_noise (snd (Connection_Write toy_noise (Init new_Connection) [65]))
     \<lparr>incoming = [[]], closing = EOF\<rparr> \<lparr>sent = [], capacity = None, failure = EOF\<rparr>
     \<lparr>Initiator = False, Pattern_Messages = [[MessagePatternE]]\<rparr>
   = (None,
      \<lparr>conn_Writer = Writer_stream
         \<lparr>dst = \<lparr>sent = [], capacity = None, failure = EOF\<rparr>, enc = Some (2, 0)\<rparr>,
       conn_Reader = Reader_stream
         \<lparr>src = \<lparr>incoming = [], closing = EOF\<rparr>, dec = Some (1, 0), buf = []\<rparr>,
       outbuf = None, inbuf = None\<rparr>,
      \<lparr>incoming = [], closing = EOF\<rparr>, \<lparr>sent = [], capacity = None, failure = EOF\<rparr>)"
  by (simp add: toy_run)

lemma toy_initiator_one_message:
  "Handshake toy_noise (Init new_Connection)
       \<lparr>incoming = [], closing = EOF\<rparr> \<lparr>sent = [], capacity = None, failure = EOF\<rparr>
       \<lparr>Initiator = True, Pattern_Messages = [[MessagePatternE]]\<rparr>
     = (None,
        \<lparr>conn_Writer = Writer_stream
           \<lparr>dst = \<lparr>sent = [[]], capacity = None, failure = EOF\<rparr>, enc = Some (1, 0)\<rparr>,
         conn_Reader = Reader_stream
           \<lparr>src = \<lparr>incoming = [], closing = EOF\<rparr>, dec = Some (2, 0), buf = []\<rparr>,
         outbuf = None, inbuf = None\<rparr>,
        \<lparr>incoming = [], closing = EOF\<rparr>, \<lparr>sent = [[]], capacity = None, failure = EOF\<rparr>)"
  by (simp add: toy_run)

lemma toy_responder_loop:
  "Handshake_loop toy_noise 1
       \<lparr>state = False, hs = 1, cs_o = None, cs_i = None, v_outbuf = [65], v_inbuf = Some [],
        v_src = \<lparr>incoming = [[]], closing = EOF\<rparr>,
        v_dst = \<lparr>sent = [], capacity = None, failure = EOF\<rparr>\<rparr>
     = (None,
        \<lparr>state = True, hs = 0, cs_o = Some (2, 0), cs_i = Some (1, 0), v_outbuf = [65],
         v_inbuf = Some [], v_src = \<lparr>incoming = [], closing = EOF\<rparr>,
         v_dst = \<lparr>sent = [], capacity = None, failure = EOF\<rparr>\<rparr>)"
  by (simp add: toy_run)

text \<open>What the loop does with the staged bytes, for any engine: every message written
  takes one chunk off the staged buffer. So a side that writes at least as many messages
  as \<^verbatim>\<open>Handshake\<close> counted for it, and at least one, leaves the loop with nothing
  staged.\<close>

lemma Handshake_send_outbuf:
  "Handshake_send N l v = Break v' \<or> Handshake_send N l v = Continue v' \<Longrightarrow>
   v_outbuf v' = drop l (v_outbuf v) \<and> length (sent (v_dst v')) = Suc (length (sent (v_dst v)))
   \<and> v_inbuf v' = v_inbuf v"
  by (auto simp: Handshake_send_def Buffer_Next_def EncodeOpaque_def Let_def
      split: prod.splits sum.splits option.splits if_splits nat.splits)

lemma Handshake_recv_outbuf:
  "Handshake_recv N v = Break v' \<or> Handshake_recv N v = Continue v' \<Longrightarrow>
   v_outbuf v' = v_outbuf v \<and> v_dst v' = v_dst v"
  by (auto simp: Handshake_recv_def Let_def
      split: prod.splits sum.splits option.splits if_splits)

lemma Handshake_loop_outbuf:
  "Handshake_loop N l v = (None, v') \<Longrightarrow>
   length (sent (v_dst v)) \<le> length (sent (v_dst v'))
   \<and> v_outbuf v' = drop ((length (sent (v_dst v')) - length (sent (v_dst v))) * l) (v_outbuf v)"
proof (induction N l v rule: Handshake_loop.induct)
  case (1 N l v)
  show ?case
  proof (cases "if state v then Handshake_send N l v else Continue v")
    case (Return e v1)
    then show ?thesis using "1.prems" by (simp add: Handshake_loop.simps [of N l v])
  next
    case (Break v1)
    then have "v1 = v'" "Handshake_send N l v = Break v'"
      using "1.prems" by (auto simp: Handshake_loop.simps [of N l v] split: if_splits)
    then show ?thesis using Handshake_send_outbuf [of N l v v'] by simp
  next
    case c: (Continue v1)
    have s1: "length (sent (v_dst v)) \<le> length (sent (v_dst v1))
       \<and> v_outbuf v1 = drop ((length (sent (v_dst v1)) - length (sent (v_dst v))) * l) (v_outbuf v)"
    proof (cases "state v")
      case True
      then have "Handshake_send N l v = Continue v1" using c by simp
      then show ?thesis using Handshake_send_outbuf [of N l v v1] by simp
    next
      case False
      then show ?thesis using c by simp
    qed
    show ?thesis
    proof (cases "Handshake_recv N v1")
      case (Return e v2)
      then show ?thesis using c "1.prems" by (simp add: Handshake_loop.simps [of N l v])
    next
      case (Break v2)
      then have "v2 = v'" using c "1.prems" by (simp add: Handshake_loop.simps [of N l v])
      then show ?thesis using Break s1 Handshake_recv_outbuf [of N v1 v'] by simp
    next
      case (Continue v2)
      then have lp: "Handshake_loop N l v2 = (None, v')"
        using c "1.prems" by (simp add: Handshake_loop.simps [of N l v])
      have r2: "v_outbuf v2 = v_outbuf v1 \<and> v_dst v2 = v_dst v1"
        using Continue Handshake_recv_outbuf [of N v1 v2] by simp
      have ih: "length (sent (v_dst v2)) \<le> length (sent (v_dst v'))
        \<and> v_outbuf v' = drop ((length (sent (v_dst v')) - length (sent (v_dst v2))) * l) (v_outbuf v2)"
        using "1.IH" [OF c Continue lp] .
      have "(length (sent (v_dst v')) - length (sent (v_dst v1))) * l
          + (length (sent (v_dst v1)) - length (sent (v_dst v))) * l
          = (length (sent (v_dst v')) - length (sent (v_dst v))) * l"
        using ih s1 r2 by (simp add: algebra_simps flip: add_mult_distrib)
      then show ?thesis using ih s1 r2 by (simp add: add.commute)
    qed
  qed
qed

lemma Handshake_outbuf_consumed:
  assumes "Handshake_loop N l v = (None, v')"
    and "Handshake_chunk nc (length (v_outbuf v)) = Inr l"
    and "0 < Handshake_nm nc"
    and "length (sent (v_dst v)) + Handshake_nm nc \<le> length (sent (v_dst v'))"
  shows "v_outbuf v' = []"
proof -
  let ?k = "length (sent (v_dst v')) - length (sent (v_dst v))"
  have k: "Handshake_nm nc \<le> ?k" using assms(4) by simp
  have cover: "length (v_outbuf v) \<le> Handshake_nm nc * l"
  proof (cases "length (v_outbuf v) \<le> 4096")
    case True
    then have "l = length (v_outbuf v)" using assms(2) by (simp add: Handshake_chunk_def)
    then show ?thesis using assms(3) by simp
  next
    case False
    show ?thesis
    proof (cases "Handshake_nm nc * 4096 < length (v_outbuf v)")
      case True
      then have "l = length (v_outbuf v) div Handshake_nm nc + 1"
        using assms(2,3) False by (simp add: Handshake_chunk_def Let_def)
      then show ?thesis
        using div_plus_one_covers [OF assms(3), of "length (v_outbuf v)"] by simp
    next
      case F2: False
      then have "l = 4096" using assms(2) False by (simp add: Handshake_chunk_def Let_def)
      then show ?thesis using F2 by simp
    qed
  qed
  have "Handshake_nm nc * l \<le> ?k * l" using k by simp
  then have "length (v_outbuf v) \<le> ?k * l" using cover by linarith
  then show ?thesis using Handshake_loop_outbuf [OF assms(1)] by simp
qed

text \<open>On the small instance, with a three-message pattern: whatever the initiator
  staged, its two messages carry it, and the responder's reader is seeded with exactly
  those bytes, below and above the threshold alike.\<close>

lemma toy_three_messages_initiator:
  assumes "Handshake_chunk
      \<lparr>Initiator = True,
       Pattern_Messages = [[MessagePatternE], [MessagePatternE], [MessagePatternS]]\<rparr>
      (length data) = Inr l"
  shows "Handshake toy_noise (snd (Connection_Write toy_noise (Init new_Connection) data))
     \<lparr>incoming = [m], closing = EOF\<rparr> \<lparr>sent = [], capacity = None, failure = EOF\<rparr>
     \<lparr>Initiator = True,
      Pattern_Messages = [[MessagePatternE], [MessagePatternE], [MessagePatternS]]\<rparr>
   = (None,
      \<lparr>conn_Writer = Writer_stream
         \<lparr>dst = \<lparr>sent = [take l data, take l (drop l data)], capacity = None, failure = EOF\<rparr>,
          enc = Some (1, 0)\<rparr>,
       conn_Reader = Reader_stream
         \<lparr>src = \<lparr>incoming = [], closing = EOF\<rparr>, dec = Some (2, 0), buf = m\<rparr>,
       outbuf = None, inbuf = None\<rparr>,
      \<lparr>incoming = [], closing = EOF\<rparr>,
      \<lparr>sent = [take l data, take l (drop l data)], capacity = None, failure = EOF\<rparr>)"
  using assms by (simp add: toy_run_chunk)

lemma toy_three_messages_responder:
  assumes "Handshake_chunk
      \<lparr>Initiator = True,
       Pattern_Messages = [[MessagePatternE], [MessagePatternE], [MessagePatternS]]\<rparr>
      (length data) = Inr l"
  shows "Handshake toy_noise (Init new_Connection)
     \<lparr>incoming = [take l data, take l (drop l data)], closing = EOF\<rparr>
     \<lparr>sent = [], capacity = None, failure = EOF\<rparr>
     \<lparr>Initiator = False,
      Pattern_Messages = [[MessagePatternE], [MessagePatternE], [MessagePatternS]]\<rparr>
   = (None,
      \<lparr>conn_Writer = Writer_stream
         \<lparr>dst = \<lparr>sent = [[]], capacity = None, failure = EOF\<rparr>, enc = Some (2, 0)\<rparr>,
       conn_Reader = Reader_stream
         \<lparr>src = \<lparr>incoming = [], closing = EOF\<rparr>, dec = Some (1, 0), buf = data\<rparr>,
       outbuf = None, inbuf = None\<rparr>,
      \<lparr>incoming = [], closing = EOF\<rparr>, \<lparr>sent = [[]], capacity = None, failure = EOF\<rparr>)"
proof -
  have nm: "Handshake_nm
      \<lparr>Initiator = True,
       Pattern_Messages = [[MessagePatternE], [MessagePatternE], [MessagePatternS]]\<rparr> = 2"
    by (simp add: Handshake_nm_def)
  have cover: "length data \<le> 2 * l"
  proof (cases "length data \<le> 4096")
    case True
    then show ?thesis using assms by (simp add: Handshake_chunk_def)
  next
    case False
    show ?thesis
    proof (cases "2 * 4096 < length data")
      case True
      then have "l = length data div 2 + 1"
        using assms False by (simp add: Handshake_chunk_def nm)
      then show ?thesis by simp
    next
      case F2: False
      then have "l = 4096" using assms False by (simp add: Handshake_chunk_def nm)
      then show ?thesis using F2 by simp
    qed
  qed
  have "take l data @ take l (drop l data) = take (l + l) data"
    by (simp add: take_add)
  then have whole: "take l data @ take l (drop l data) = data" using cover by simp
  show ?thesis
    by (simp add: toy_run_chunk Handshake_chunk_def whole)
qed


text \<open>
  Claim C1, where the code departs from it. A responder of a one-message pattern wrote
  the byte \<open>65\<close> before the handshake. Its handshake succeeds, and so does the
  initiator's; the loop never took a byte off the staged buffer (it is still \<open>[65]\<close>
  when the loop is left), nothing was written to the transport, the staging buffers are
  discarded, and the initiator's reader holds nothing and has no frame to receive.
\<close>

theorem responder_staged_byte_lost:
  "Handshake toy_noise (snd (Connection_Write toy_noise (Init new_Connection) [65]))
     \<lparr>incoming = [[]], closing = EOF\<rparr> \<lparr>sent = [], capacity = None, failure = EOF\<rparr>
     \<lparr>Initiator = False, Pattern_Messages = [[MessagePatternE]]\<rparr>
   = (None,
      \<lparr>conn_Writer = Writer_stream
         \<lparr>dst = \<lparr>sent = [], capacity = None, failure = EOF\<rparr>, enc = Some (2, 0)\<rparr>,
       conn_Reader = Reader_stream
         \<lparr>src = \<lparr>incoming = [], closing = EOF\<rparr>, dec = Some (1, 0), buf = []\<rparr>,
       outbuf = None, inbuf = None\<rparr>,
      \<lparr>incoming = [], closing = EOF\<rparr>, \<lparr>sent = [], capacity = None, failure = EOF\<rparr>)
   \<and> Handshake_loop toy_noise 1
       \<lparr>state = False, hs = 1, cs_o = None, cs_i = None, v_outbuf = [65], v_inbuf = Some [],
        v_src = \<lparr>incoming = [[]], closing = EOF\<rparr>,
        v_dst = \<lparr>sent = [], capacity = None, failure = EOF\<rparr>\<rparr>
     = (None,
        \<lparr>state = True, hs = 0, cs_o = Some (2, 0), cs_i = Some (1, 0), v_outbuf = [65],
         v_inbuf = Some [], v_src = \<lparr>incoming = [], closing = EOF\<rparr>,
         v_dst = \<lparr>sent = [], capacity = None, failure = EOF\<rparr>\<rparr>)
   \<and> Handshake toy_noise (Init new_Connection)
       \<lparr>incoming = [], closing = EOF\<rparr> \<lparr>sent = [], capacity = None, failure = EOF\<rparr>
       \<lparr>Initiator = True, Pattern_Messages = [[MessagePatternE]]\<rparr>
     = (None,
        \<lparr>conn_Writer = Writer_stream
           \<lparr>dst = \<lparr>sent = [[]], capacity = None, failure = EOF\<rparr>, enc = Some (1, 0)\<rparr>,
         conn_Reader = Reader_stream
           \<lparr>src = \<lparr>incoming = [], closing = EOF\<rparr>, dec = Some (2, 0), buf = []\<rparr>,
         outbuf = None, inbuf = None\<rparr>,
        \<lparr>incoming = [], closing = EOF\<rparr>, \<lparr>sent = [[]], capacity = None, failure = EOF\<rparr>)"
  using toy_responder_staged toy_responder_loop toy_initiator_one_message by simp

end
